theory Spec2Isabelle
  imports Main "HOL-Library.Sublist" "HOL-Library.AList"
begin

section \<open>Strings\<close>

text \<open>
  JavaScript strings are modelled as \<^typ>\<open>string\<close> (lists of 8-bit characters), so the
  model covers ASCII transcripts. \<open>toLowerCase\<close> maps the letters A-Z to a-z and leaves every
  other character alone; \<open>trim\<close> removes the ASCII white space (TAB, LF, VT, FF, CR, space)
  from both ends; \<open>String.prototype.includes\<close> is the test for a contiguous substring.
\<close>

definition lower_char :: "char \<Rightarrow> char" where
  "lower_char c =
     (case map_of (zip ''ABCDEFGHIJKLMNOPQRSTUVWXYZ'' ''abcdefghijklmnopqrstuvwxyz'') c of
        Some d \<Rightarrow> d
      | None \<Rightarrow> c)"

definition toLowerCase :: "string \<Rightarrow> string" where
  "toLowerCase s = map lower_char s"

definition isWhiteSpace :: "char \<Rightarrow> bool" where
  "isWhiteSpace c = (c \<in> set [CHR 0x09, CHR 0x0A, CHR 0x0B, CHR 0x0C, CHR 0x0D, CHR '' ''])"

definition trim :: "string \<Rightarrow> string" where
  "trim s = rev (dropWhile isWhiteSpace (rev (dropWhile isWhiteSpace s)))"

fun str_includes :: "string \<Rightarrow> string \<Rightarrow> bool" where
  "str_includes [] p = (p = [])"
| "str_includes (c # cs) p = (prefix p (c # cs) \<or> str_includes cs p)"

section \<open>Speech Input Controller: \<open>VoiceManager\<close> (src/lib/voice.ts)\<close>

text \<open>
  The class is embedded as a record of its fields and one state transformer per method and
  per recognizer handler. Optional callbacks (\<open>onWakeWordDetected?\<close>, ...) are booleans
  saying whether a callback is registered; calling one appends an entry to \<open>trace\<close>, the log
  of everything the manager does to the outside (recognizer, synthesizer, alerts, callbacks),
  oldest entry first. \<open>window.setTimeout\<close> is modelled by the table \<open>timers\<close> of pending
  timers and the counter \<open>nextTimerId\<close> (browser timer ids are positive, so a stored id is
  truthy). The private fields \<open>wakeWord\<close> and \<open>maxRetries\<close> are initialised once and never
  assigned: they are constants. Console logging is left out.

  The file holds two versions of the class. The embedding follows the later one (the one
  with \<open>isRecognizing\<close>, \<open>hasShownSecurityAlert\<close> and \<open>permanentlyDisabled\<close>), its
  \<open>taskQuestions\<close> and its \<open>parseDateFromSpeech\<close>.
\<close>

definition wakeWord :: string where
  "wakeWord = ''hi voice''"

definition maxRetries :: nat where
  "maxRetries = 3"

datatype timer_body =
    RestartAfterEnd
  | RetryAfterNetwork
  | RetryAfterNoSpeech
  | RetryAfterUnknown

datatype alert_kind =
    InsecureOriginAlert
  | ServiceUnreachableAlert
  | MicrophoneDeniedAlert

datatype vm_effect =
    RecognitionStart
  | RecognitionStop
  | ListeningStateChange bool
  | WakeWordCallback
  | SpeechResultCallback string
  | SynthesisCancel
  | SynthesisSpeak string
  | Alert alert_kind
  | SetTimeout nat timer_body nat

record VoiceManager =
  recognition :: bool
  synthesis :: bool
  isListening :: bool
  isWaitingForWakeWord :: bool
  onWakeWordDetected :: bool
  onSpeechResult :: bool
  onListeningStateChange :: bool
  retryTimeoutId :: "nat option"
  retryCount :: nat
  isRecognizing :: bool
  hasShownSecurityAlert :: bool
  permanentlyDisabled :: bool
  location_hostname :: string
  location_protocol :: string
  timers :: "(nat \<times> timer_body) list"
  nextTimerId :: nat
  trace :: "vm_effect list"

text \<open>The constructor: \<open>supported\<close> says whether the browser has a recognizer.\<close>

definition VoiceManager_new :: "bool \<Rightarrow> string \<Rightarrow> string \<Rightarrow> VoiceManager" where
  "VoiceManager_new supported hostname protocol =
     \<lparr> recognition = supported, synthesis = True, isListening = False,
       isWaitingForWakeWord = False, onWakeWordDetected = False, onSpeechResult = False,
       onListeningStateChange = False, retryTimeoutId = None, retryCount = 0,
       isRecognizing = False, hasShownSecurityAlert = False, permanentlyDisabled = False,
       location_hostname = hostname, location_protocol = protocol,
       timers = [], nextTimerId = 1, trace = [] \<rparr>"

definition emit :: "vm_effect \<Rightarrow> VoiceManager \<Rightarrow> VoiceManager" where
  "emit e s = s\<lparr>trace := trace s @ [e]\<rparr>"

definition notifyListening :: "bool \<Rightarrow> VoiceManager \<Rightarrow> VoiceManager" where
  "notifyListening b s = (if onListeningStateChange s then emit (ListeningStateChange b) s else s)"

definition clearTimeout :: "nat \<Rightarrow> VoiceManager \<Rightarrow> VoiceManager" where
  "clearTimeout i s = s\<lparr>timers := filter (\<lambda>(j, b). j \<noteq> i) (timers s)\<rparr>"

text \<open>\<open>this.retryTimeoutId = window.setTimeout(body, delay)\<close>\<close>

definition setRetryTimeout :: "timer_body \<Rightarrow> nat \<Rightarrow> VoiceManager \<Rightarrow> VoiceManager" where
  "setRetryTimeout body delay s =
     (let i = nextTimerId s in
      emit (SetTimeout i body delay)
        (s\<lparr>timers := timers s @ [(i, body)], nextTimerId := Suc i, retryTimeoutId := Some i\<rparr>))"

text \<open>\<open>setTimeout(body, delay)\<close> whose id is thrown away (the default error case).\<close>

definition setPlainTimeout :: "timer_body \<Rightarrow> nat \<Rightarrow> VoiceManager \<Rightarrow> VoiceManager" where
  "setPlainTimeout body delay s =
     (let i = nextTimerId s in
      emit (SetTimeout i body delay)
        (s\<lparr>timers := timers s @ [(i, body)], nextTimerId := Suc i\<rparr>))"

definition clearRetryTimeout :: "VoiceManager \<Rightarrow> VoiceManager" where
  "clearRetryTimeout s =
     (case retryTimeoutId s of
        None \<Rightarrow> s
      | Some i \<Rightarrow> (clearTimeout i s)\<lparr>retryTimeoutId := None\<rparr>)"

text \<open>
  \<open>recognition.start()\<close> may return or throw; what it does is decided by the browser, so
  the outcome is an argument of every operation that may reach \<open>safeStart\<close>. Likewise
  \<open>recognition.stop()\<close> may throw.
\<close>

datatype start_outcome = Started | ThrowsInvalidStateError | ThrowsOtherError

definition safeStart :: "start_outcome \<Rightarrow> VoiceManager \<Rightarrow> VoiceManager" where
  "safeStart out s =
     (if permanentlyDisabled s then s
      else if \<not> recognition s \<or> isRecognizing s then s
      else (case out of
              Started \<Rightarrow> (emit RecognitionStart s)\<lparr>isRecognizing := True\<rparr>
            | ThrowsInvalidStateError \<Rightarrow> (emit RecognitionStart s)\<lparr>isRecognizing := True\<rparr>
            | ThrowsOtherError \<Rightarrow> emit RecognitionStart s))"

definition safeStop :: "bool \<Rightarrow> VoiceManager \<Rightarrow> VoiceManager" where
  "safeStop throws s =
     (if recognition s \<and> isRecognizing s
      then (if throws then emit RecognitionStop s
            else (emit RecognitionStop s)\<lparr>isRecognizing := False\<rparr>)
      else s)"

definition startWakeWordListening :: "start_outcome \<Rightarrow> VoiceManager \<Rightarrow> VoiceManager" where
  "startWakeWordListening out s =
     (let s1 = s\<lparr>isWaitingForWakeWord := True\<rparr>;
          s2 = (if \<not> isRecognizing s1 then s1\<lparr>retryCount := 0\<rparr> else s1)
      in safeStart out s2)"

definition stopWakeWordListening :: "bool \<Rightarrow> VoiceManager \<Rightarrow> VoiceManager" where
  "stopWakeWordListening throws s =
     safeStop throws (clearRetryTimeout (s\<lparr>isWaitingForWakeWord := False\<rparr>))"

definition startActiveListening :: "start_outcome \<Rightarrow> VoiceManager \<Rightarrow> VoiceManager" where
  "startActiveListening out s = safeStart out (s\<lparr>isWaitingForWakeWord := False\<rparr>)"

definition stopActiveListening :: "bool \<Rightarrow> VoiceManager \<Rightarrow> VoiceManager" where
  "stopActiveListening throws s = safeStop throws s"

definition resetRetryCount :: "VoiceManager \<Rightarrow> VoiceManager" where
  "resetRetryCount s = clearRetryTimeout (s\<lparr>retryCount := 0\<rparr>)"

definition speak :: "string \<Rightarrow> VoiceManager \<Rightarrow> VoiceManager" where
  "speak text s =
     (if \<not> synthesis s then s else emit (SynthesisSpeak text) (emit SynthesisCancel s))"

definition handleWakeWordDetected :: "VoiceManager \<Rightarrow> VoiceManager" where
  "handleWakeWordDetected s =
     (let s1 = resetRetryCount (s\<lparr>isWaitingForWakeWord := False\<rparr>);
          s2 = (if onWakeWordDetected s1 then emit WakeWordCallback s1 else s1)
      in speak ''Hello! I'm listening. How can I help you with your tasks?'' s2)"

definition cleanup :: "bool \<Rightarrow> bool \<Rightarrow> VoiceManager \<Rightarrow> VoiceManager" where
  "cleanup throws1 throws2 s =
     resetRetryCount (stopActiveListening throws2 (stopWakeWordListening throws1 s))"

subsection \<open>Recognizer handlers\<close>

definition onstart :: "VoiceManager \<Rightarrow> VoiceManager" where
  "onstart s = notifyListening True (s\<lparr>isRecognizing := True, isListening := True\<rparr>)"

definition onend :: "VoiceManager \<Rightarrow> VoiceManager" where
  "onend s =
     (let s1 = notifyListening False (s\<lparr>isRecognizing := False, isListening := False\<rparr>)
      in if isWaitingForWakeWord s1 \<and> \<not> permanentlyDisabled s1 \<and> retryCount s1 < maxRetries
         then setRetryTimeout RestartAfterEnd 1500 s1
         else s1)"

text \<open>
  \<open>onresult\<close> looks at the last result of the event only: \<open>isFinal\<close> and the transcript of
  its first alternative (the confidence is only logged).
\<close>

definition onresult :: "bool \<Rightarrow> string \<Rightarrow> VoiceManager \<Rightarrow> VoiceManager" where
  "onresult isFinal rawTranscript s =
     (if isFinal
      then (let transcript = trim (toLowerCase rawTranscript);
                s1 = s\<lparr>retryCount := 0\<rparr>
            in if isWaitingForWakeWord s1
               then (if str_includes transcript wakeWord then handleWakeWordDetected s1 else s1)
               else (if onSpeechResult s1 then emit (SpeechResultCallback transcript) s1 else s1))
      else s)"

definition showSecurityAlertOnce :: "alert_kind \<Rightarrow> VoiceManager \<Rightarrow> VoiceManager" where
  "showSecurityAlertOnce a s =
     (if \<not> hasShownSecurityAlert s then emit (Alert a) (s\<lparr>hasShownSecurityAlert := True\<rparr>) else s)"

definition onerror :: "string \<Rightarrow> VoiceManager \<Rightarrow> VoiceManager" where
  "onerror err s0 =
     (let s = clearRetryTimeout s0 in
      if err = ''network'' then
        (let isLocalhost = (location_hostname s = ''localhost'' \<or>
                            location_hostname s = ''127.0.0.1'' \<or>
                            location_hostname s = '''');
             isHttps = (location_protocol s = ''https:'')
         in if \<not> isHttps \<and> \<not> isLocalhost
            then showSecurityAlertOnce InsecureOriginAlert
                   (s\<lparr>isWaitingForWakeWord := False, permanentlyDisabled := True\<rparr>)
            else if retryCount s < maxRetries
            then setRetryTimeout RetryAfterNetwork 3000 (s\<lparr>retryCount := retryCount s + 1\<rparr>)
            else showSecurityAlertOnce ServiceUnreachableAlert
                   (notifyListening False
                      (s\<lparr>isWaitingForWakeWord := False, permanentlyDisabled := True\<rparr>)))
      else if err = ''not-allowed'' then
        notifyListening False ((emit (Alert MicrophoneDeniedAlert) s)\<lparr>isWaitingForWakeWord := False\<rparr>)
      else if err = ''no-speech'' then
        (if isWaitingForWakeWord s \<and> retryCount s < maxRetries
         then setRetryTimeout RetryAfterNoSpeech 1000 s
         else s)
      else if err = ''aborted'' then s
      else
        (if isWaitingForWakeWord s \<and> retryCount s < maxRetries
         then setPlainTimeout RetryAfterUnknown 2000 (s\<lparr>retryCount := retryCount s + 1\<rparr>)
         else if retryCount s \<ge> maxRetries
         then notifyListening False (s\<lparr>isWaitingForWakeWord := False\<rparr>)
         else s))"

subsection \<open>Timer callbacks\<close>

definition runTimerBody :: "timer_body \<Rightarrow> start_outcome \<Rightarrow> VoiceManager \<Rightarrow> VoiceManager" where
  "runTimerBody body out s =
     (case body of
        RestartAfterEnd \<Rightarrow>
          (if isWaitingForWakeWord s \<and> \<not> isRecognizing s \<and> \<not> permanentlyDisabled s
           then safeStart out s else s)
      | RetryAfterNetwork \<Rightarrow>
          (if isWaitingForWakeWord s \<and> \<not> isRecognizing s then safeStart out s else s)
      | RetryAfterNoSpeech \<Rightarrow> (if \<not> isRecognizing s then safeStart out s else s)
      | RetryAfterUnknown \<Rightarrow> (if \<not> isRecognizing s then safeStart out s else s))"

text \<open>A pending timer fires: it leaves the table and its body runs. A cleared timer never fires.\<close>

definition timerFires :: "nat \<Rightarrow> start_outcome \<Rightarrow> VoiceManager \<Rightarrow> VoiceManager" where
  "timerFires i out s =
     (case map_of (timers s) i of
        None \<Rightarrow> s
      | Some body \<Rightarrow> runTimerBody body out (clearTimeout i s))"

subsection \<open>Runs of the controller\<close>

datatype vm_event =
    CallStartWakeWordListening start_outcome
  | CallStopWakeWordListening bool
  | CallStartActiveListening start_outcome
  | CallStopActiveListening bool
  | CallResetRetryCount
  | CallCleanup bool bool
  | CallSpeak string
  | CallOnWakeWord
  | CallOnSpeech
  | CallOnListeningChange
  | RecognizerStart
  | RecognizerEnd
  | RecognizerResult bool string
  | RecognizerError string
  | TimerFires nat start_outcome

fun vm_step :: "VoiceManager \<Rightarrow> vm_event \<Rightarrow> VoiceManager" where
  "vm_step s (CallStartWakeWordListening out) = startWakeWordListening out s"
| "vm_step s (CallStopWakeWordListening throws) = stopWakeWordListening throws s"
| "vm_step s (CallStartActiveListening out) = startActiveListening out s"
| "vm_step s (CallStopActiveListening throws) = stopActiveListening throws s"
| "vm_step s CallResetRetryCount = resetRetryCount s"
| "vm_step s (CallCleanup t1 t2) = cleanup t1 t2 s"
| "vm_step s (CallSpeak text) = speak text s"
| "vm_step s CallOnWakeWord = s\<lparr>onWakeWordDetected := True\<rparr>"
| "vm_step s CallOnSpeech = s\<lparr>onSpeechResult := True\<rparr>"
| "vm_step s CallOnListeningChange = s\<lparr>onListeningStateChange := True\<rparr>"
| "vm_step s RecognizerStart = onstart s"
| "vm_step s RecognizerEnd = onend s"
| "vm_step s (RecognizerResult isFinal t) = onresult isFinal t s"
| "vm_step s (RecognizerError err) = onerror err s"
| "vm_step s (TimerFires i out) = timerFires i out s"

definition vm_run :: "VoiceManager \<Rightarrow> vm_event list \<Rightarrow> VoiceManager" where
  "vm_run s evs = foldl vm_step s evs"

text \<open>What a step added to the trace.\<close>

definition emitted :: "VoiceManager \<Rightarrow> VoiceManager \<Rightarrow> vm_effect list" where
  "emitted s s' = drop (length (trace s)) (trace s')"

subsection \<open>Vocabulary for the retry budget\<close>

text \<open>
  The origin test of the \<open>network\<close> case of \<open>onerror\<close>: the page is served over HTTPS or from
  the local host (the negation of \<open>!isHttps && !isLocalhost\<close>).
\<close>

definition secureOrigin :: "VoiceManager \<Rightarrow> bool" where
  "secureOrigin s =
     (location_protocol s = ''https:'' \<or> location_hostname s = ''localhost'' \<or>
      location_hostname s = ''127.0.0.1'' \<or> location_hostname s = '''')"

text \<open>
  The events of a retry cycle: network errors and, between them, the recognizer starting
  and ending and timers firing. No result arrives and nothing is called from outside.
\<close>

fun retryCycleEvent :: "vm_event \<Rightarrow> bool" where
  "retryCycleEvent RecognizerStart = True"
| "retryCycleEvent RecognizerEnd = True"
| "retryCycleEvent (TimerFires i out) = True"
| "retryCycleEvent (RecognizerError err) = (err = ''network'')"
| "retryCycleEvent _ = False"

definition networkErrors :: "vm_event list \<Rightarrow> nat" where
  "networkErrors evs = length (filter (\<lambda>ev. ev = RecognizerError ''network'') evs)"

text \<open>
  The events that set \<open>retryCount\<close> to 0: a final result, \<open>startWakeWordListening()\<close> while
  \<open>isRecognizing\<close> is false, \<open>resetRetryCount()\<close> and \<open>cleanup()\<close>.
\<close>

fun resetsRetryCount :: "vm_event \<Rightarrow> VoiceManager \<Rightarrow> bool" where
  "resetsRetryCount (RecognizerResult isFinal t) s = isFinal"
| "resetsRetryCount (CallStartWakeWordListening out) s = (\<not> isRecognizing s)"
| "resetsRetryCount CallResetRetryCount s = True"
| "resetsRetryCount (CallCleanup t1 t2) s = True"
| "resetsRetryCount _ s = False"

section \<open>Phrase-to-date resolver: \<open>parseDateFromSpeech\<close> (src/lib/voice.ts)\<close>

text \<open>
  A \<open>Date\<close> is its time value, the milliseconds since the epoch. The clock gives the value
  of \<open>new Date()\<close> and the offset of local time from UTC, taken as fixed (no daylight-saving
  change between the dates involved), so that \<open>setDate(getDate() + k)\<close> adds \<open>k\<close> whole days.
  \<open>toISOString().split("T")[0]\<close> is the UTC calendar date of the instant; the model returns
  the number of that day (days since 1970-01-01) instead of the ten characters that print
  it, and \<open>None\<close> where the source returns the empty string.
\<close>

record clock =
  now_ms :: int
  tz_offset_ms :: int

type_synonym iso_date = int

definition msPerDay :: int where
  "msPerDay = 86400000"

definition isoDate :: "int \<Rightarrow> iso_date" where
  "isoDate ms = ms div msPerDay"

definition addDays :: "int \<Rightarrow> int \<Rightarrow> int" where
  "addDays ms k = ms + k * msPerDay"

text \<open>\<open>getDay()\<close>: the local day of the week, 0 for Sunday; 1970-01-01 was a Thursday.\<close>

definition getDay :: "clock \<Rightarrow> int" where
  "getDay clk = ((now_ms clk + tz_offset_ms clk) div msPerDay + 4) mod 7"

definition parseDateFromSpeech :: "clock \<Rightarrow> string \<Rightarrow> iso_date option" where
  "parseDateFromSpeech clk speech =
     (let text = toLowerCase speech; today = now_ms clk in
      if str_includes text ''today'' then Some (isoDate today)
      else if str_includes text ''tomorrow'' then Some (isoDate (addDays today 1))
      else if str_includes text ''next week'' then Some (isoDate (addDays today 7))
      else if str_includes text ''monday'' then
        (let m = (1 + 7 - getDay clk) mod 7;
             diff = (if m = 0 then 7 else m)
         in Some (isoDate (addDays today diff)))
      else None)"

section \<open>Dialogue Engine: \<open>VoiceTaskCreator\<close> (src/components/VoiceTaskCreator.tsx)\<close>

record TaskFormData =
  title :: string
  description :: string
  priority :: string
  category :: string
  dueDate :: "iso_date option"

record TaskQuestion =
  question_id :: string
  question :: string
  field :: string
  question_type :: string
  options :: "string list option"
  validation :: "(string \<Rightarrow> bool) option"
  followUp :: "string option"

definition taskQuestions :: "TaskQuestion list" where
  "taskQuestions =
     [ \<lparr> question_id = ''title'',
         question = ''What would you like to call this task?'',
         field = ''title'', question_type = ''text'', options = None,
         validation = Some (\<lambda>v. length (trim v) > 0),
         followUp = Some ''Got it!'' \<rparr>,
       \<lparr> question_id = ''description'',
         question = ''Would you like to add a description? You can say 'skip' to continue.'',
         field = ''description'', question_type = ''text'', options = None,
         validation = None,
         followUp = Some ''Description noted.'' \<rparr>,
       \<lparr> question_id = ''priority'',
         question = ''What's the priority level? Say 'high', 'medium', or 'low'.'',
         field = ''priority'', question_type = ''select'',
         options = Some [''high'', ''medium'', ''low''],
         validation = Some (\<lambda>v. toLowerCase v \<in> set [''high'', ''medium'', ''low'']),
         followUp = Some ''Priority set.'' \<rparr>,
       \<lparr> question_id = ''category'',
         question = ''What category is this task? For example: work, personal, shopping, or say 'skip'.'',
         field = ''category'', question_type = ''text'', options = None,
         validation = None,
         followUp = Some ''Category added.'' \<rparr>,
       \<lparr> question_id = ''dueDate'',
         question = ''When is this due? You can say things like 'today', 'tomorrow', 'next Friday', or 'skip'.'',
         field = ''dueDate'', question_type = ''date'', options = None,
         validation = None,
         followUp = Some ''Due date set.'' \<rparr> ]"

text \<open>
  The component's \<open>useState\<close> cells are the fields of \<open>creator\<close>. What the component does to
  its collaborators (the voice manager, the parent's \<open>onTaskCreated\<close> and \<open>onCancel\<close>, the
  timers it sets) is appended to \<open>log\<close>. A callback handed to \<open>voiceManager.speak\<close> runs when
  the utterance has been spoken; it is recorded as a \<open>continuation\<close> and run by
  \<open>runContinuation\<close>.

  A function of the component reads the state cells through the variables of the render
  that created it: every function below takes that render's state as \<open>snap\<close> and the
  current state as \<open>s\<close>. Reads come from \<open>snap\<close>; the functional updates
  (\<open>setTaskData(prev => ...)\<close>, \<open>setCurrentQuestionIndex(prev => prev + 1)\<close>) and the
  plain sets act on \<open>s\<close>.

  The text of an utterance that contains a locale-dependent rendering of a date is kept
  structured. \<open>parseReminderFromSpeech\<close> (src/lib/reminders.ts) is a parameter.
\<close>

datatype continuation =
    ThenStartActiveListening
  | ThenSetNeedsReminderAndListen
  | ThenFinishTaskCreation
  | ThenNextQuestion
  | ThenStopAndCancel

datatype utterance =
    Say string
  | SayDateFeedback string iso_date
  | SayReminderSet int

datatype creator_effect =
    CallsSpeak utterance continuation
  | CallsStartActiveListening
  | CallsStopActiveListening
  | CallsOnTaskCreated TaskFormData
  | CallsOnCancel
  | SchedulesProcessAnswer string
  | SchedulesAskCurrentQuestion

record creator =
  currentQuestionIndex :: nat
  taskData :: TaskFormData
  creatorIsListening :: bool
  currentTranscript :: string
  isProcessing :: bool
  needsReminder :: bool
  creatorReminderTime :: "int option"
  log :: "creator_effect list"

definition initialTaskData :: TaskFormData where
  "initialTaskData =
     \<lparr> title = '''', description = '''', priority = ''medium'', category = '''', dueDate = None \<rparr>"

definition initialCreator :: creator where
  "initialCreator =
     \<lparr> currentQuestionIndex = 0, taskData = initialTaskData, creatorIsListening = False,
       currentTranscript = '''', isProcessing = False, needsReminder = False,
       creatorReminderTime = None, log = [] \<rparr>"

definition does :: "creator_effect \<Rightarrow> creator \<Rightarrow> creator" where
  "does e s = s\<lparr>log := log s @ [e]\<rparr>"

definition resetCreator :: "creator \<Rightarrow> creator" where
  "resetCreator s =
     s\<lparr>currentQuestionIndex := 0, taskData := initialTaskData, currentTranscript := '''',
       isProcessing := False, needsReminder := False, creatorReminderTime := None\<rparr>"

definition finishTaskCreation :: "creator \<Rightarrow> creator \<Rightarrow> creator" where
  "finishTaskCreation snap s = does (CallsOnTaskCreated (taskData snap)) (does CallsStopActiveListening s)"

definition askCurrentQuestion :: "creator \<Rightarrow> creator \<Rightarrow> creator" where
  "askCurrentQuestion snap s =
     (if currentQuestionIndex snap \<ge> length taskQuestions
      then (if \<not> needsReminder snap
            then does (CallsSpeak
                   (Say ''Great! Your task is ready. Would you like to set a reminder? Say 'yes' to add a reminder or 'no' to finish.'')
                   ThenSetNeedsReminderAndListen) s
            else finishTaskCreation snap s)
      else does (CallsSpeak (Say (question (taskQuestions ! currentQuestionIndex snap)))
                   ThenStartActiveListening) s)"

definition handleSpeechResult :: "string \<Rightarrow> creator \<Rightarrow> creator" where
  "handleSpeechResult transcript s =
     does (SchedulesProcessAnswer transcript) (s\<lparr>currentTranscript := transcript, isProcessing := True\<rparr>)"

definition nextQuestion :: "creator \<Rightarrow> creator" where
  "nextQuestion s =
     does SchedulesAskCurrentQuestion
       (s\<lparr>isProcessing := False, currentTranscript := '''',
          currentQuestionIndex := currentQuestionIndex s + 1\<rparr>)"

text \<open>\<open>["high", "medium", "low"].find((p) => processedAnswer.includes(p)) || "medium"\<close>\<close>

definition resolvePriority :: "string \<Rightarrow> string" where
  "resolvePriority processedAnswer =
     (case find (\<lambda>p. str_includes processedAnswer p) [''high'', ''medium'', ''low''] of
        Some p \<Rightarrow> p
      | None \<Rightarrow> ''medium'')"

definition followUpText :: "TaskQuestion \<Rightarrow> string" where
  "followUpText q = (case followUp q of Some f \<Rightarrow> f | None \<Rightarrow> '''')"

definition processAnswer ::
  "(string \<Rightarrow> int option) \<Rightarrow> clock \<Rightarrow> creator \<Rightarrow> string \<Rightarrow> creator \<Rightarrow> creator" where
  "processAnswer parseReminderFromSpeech clk snap answer s =
     (let lowerAnswer = trim (toLowerCase answer) in
      if needsReminder snap \<and> creatorReminderTime snap = None then
        (if str_includes lowerAnswer ''no'' \<or> str_includes lowerAnswer ''skip''
         then finishTaskCreation snap s
         else if str_includes lowerAnswer ''yes''
         then does (CallsSpeak
                (Say ''When would you like to be reminded? You can say things like 'in 30 minutes', 'tomorrow at 9', or 'next week'.'')
                ThenStartActiveListening) s
         else (case parseReminderFromSpeech lowerAnswer of
                 Some parsedTime \<Rightarrow>
                   does (CallsSpeak (SayReminderSet parsedTime) ThenFinishTaskCreation)
                     (s\<lparr>creatorReminderTime := Some parsedTime\<rparr>)
               | None \<Rightarrow>
                   does (CallsSpeak
                     (Say ''I didn't understand that time. Please try again or say 'no' to skip the reminder.'')
                     ThenStartActiveListening) s))
      else if currentQuestionIndex snap \<ge> length taskQuestions then s
      else
        (let q = taskQuestions ! currentQuestionIndex snap in
         if str_includes lowerAnswer ''skip'' \<or> str_includes lowerAnswer ''no'' \<or> lowerAnswer = ''''
         then (if field q = ''title''
               then (does (CallsSpeak
                      (Say ''Task title is required. Please tell me what you'd like to call this task.'')
                      ThenStartActiveListening) s)\<lparr>isProcessing := False\<rparr>
               else nextQuestion s)
         else if field q = ''title'' then
           does (CallsSpeak (Say (followUpText q @ lowerAnswer @ ''.'')) ThenNextQuestion)
             (s\<lparr>taskData := (taskData s)\<lparr>title := trim answer\<rparr>\<rparr>)
         else if field q = ''description'' then
           does (CallsSpeak (Say (followUpText q @ lowerAnswer @ ''.'')) ThenNextQuestion)
             (s\<lparr>taskData := (taskData s)\<lparr>description := trim answer\<rparr>\<rparr>)
         else if field q = ''priority'' then
           (let p = resolvePriority lowerAnswer in
            does (CallsSpeak (Say (followUpText q @ p @ ''.'')) ThenNextQuestion)
              (s\<lparr>taskData := (taskData s)\<lparr>priority := p\<rparr>\<rparr>))
         else if field q = ''category'' then
           does (CallsSpeak (Say (followUpText q @ lowerAnswer @ ''.'')) ThenNextQuestion)
             (s\<lparr>taskData := (taskData s)\<lparr>category := trim answer\<rparr>\<rparr>)
         else if field q = ''dueDate'' then
           (case parseDateFromSpeech clk lowerAnswer of
              Some parsedDate \<Rightarrow>
                does (CallsSpeak (SayDateFeedback (followUpText q) parsedDate) ThenNextQuestion)
                  (s\<lparr>taskData := (taskData s)\<lparr>dueDate := Some parsedDate\<rparr>\<rparr>)
            | None \<Rightarrow>
                does (CallsSpeak (Say (followUpText q @ lowerAnswer @ ''.'')) ThenNextQuestion) s)
         else does (CallsSpeak (Say (followUpText q @ lowerAnswer @ ''.'')) ThenNextQuestion) s))"

definition handleCancel :: "creator \<Rightarrow> creator" where
  "handleCancel s = does (CallsSpeak (Say ''Task creation cancelled.'') ThenStopAndCancel) s"

definition runContinuation :: "creator \<Rightarrow> continuation \<Rightarrow> creator \<Rightarrow> creator" where
  "runContinuation snap k s =
     (case k of
        ThenStartActiveListening \<Rightarrow> does CallsStartActiveListening s
      | ThenSetNeedsReminderAndListen \<Rightarrow> does CallsStartActiveListening (s\<lparr>needsReminder := True\<rparr>)
      | ThenFinishTaskCreation \<Rightarrow> finishTaskCreation snap s
      | ThenNextQuestion \<Rightarrow> nextQuestion s
      | ThenStopAndCancel \<Rightarrow> does CallsOnCancel (does CallsStopActiveListening s))"

subsection \<open>Runs of the dialogue\<close>

text \<open>
  The component hands \<open>handleSpeechResult\<close> to the voice manager once, in the effect that
  runs when \<open>isActive\<close> changes (\<open>useEffect(..., [isActive])\<close>). That function, the
  \<open>processAnswer\<close>, \<open>nextQuestion\<close> and \<open>askCurrentQuestion\<close> it reaches and the callbacks
  they hand to \<open>speak\<close> and \<open>setTimeout\<close> all belong to the render in which the session
  became active: in a run, \<open>snap\<close> is the state of that one render for every handler, while
  the state they update moves on.

  The surroundings of the component are a \<open>session\<close>: the component's state, the callback
  of the utterance being spoken (\<open>voiceManager.speak\<close> cancels the utterance before it, so
  only the latest one can end) and the number of pending 500 ms timers of \<open>nextQuestion\<close>.
  When a handler has run, the session takes note of what the handler appended to the log.
  A transcript is delivered to \<open>handleSpeechResult\<close> and processed one second later. An
  event that cannot happen (an utterance ends when none is being spoken, a timer fires when
  none is pending) has no successor.
\<close>

record session =
  component :: creator
  utterance :: "continuation option"
  askTimers :: nat

fun noteEffect :: "session \<Rightarrow> creator_effect \<Rightarrow> session" where
  "noteEffect e (CallsSpeak u k) = e\<lparr>utterance := Some k\<rparr>"
| "noteEffect e SchedulesAskCurrentQuestion = e\<lparr>askTimers := Suc (askTimers e)\<rparr>"
| "noteEffect e x = e"

definition handlerRan :: "creator \<Rightarrow> session \<Rightarrow> session" where
  "handlerRan c' e =
     foldl noteEffect (e\<lparr>component := c'\<rparr>) (drop (length (log (component e))) (log c'))"

datatype dialogue_event =
    Answer string
  | UtteranceEnds
  | AskTimerFires

fun session_step ::
  "(string \<Rightarrow> int option) \<Rightarrow> clock \<Rightarrow> creator \<Rightarrow> session \<Rightarrow> dialogue_event \<Rightarrow> session option" where
  "session_step pr clk snap e (Answer a) =
     Some (handlerRan (processAnswer pr clk snap a (handleSpeechResult a (component e))) e)"
| "session_step pr clk snap e UtteranceEnds =
     (case utterance e of
        None \<Rightarrow> None
      | Some k \<Rightarrow> Some (handlerRan (runContinuation snap k (component e)) (e\<lparr>utterance := None\<rparr>)))"
| "session_step pr clk snap e AskTimerFires =
     (if askTimers e = 0 then None
      else Some (handlerRan (askCurrentQuestion snap (component e))
                   (e\<lparr>askTimers := askTimers e - 1\<rparr>)))"

fun session_run ::
  "(string \<Rightarrow> int option) \<Rightarrow> clock \<Rightarrow> creator \<Rightarrow> session \<Rightarrow> dialogue_event list \<Rightarrow> session option" where
  "session_run pr clk snap e [] = Some e"
| "session_run pr clk snap e (ev # evs) =
     (case session_step pr clk snap e ev of
        None \<Rightarrow> None
      | Some e' \<Rightarrow> session_run pr clk snap e' evs)"

text \<open>
  The first voice session: \<open>isActive\<close> becomes true while the state is the initial one, and
  the effect asks the current question. The render of that moment, \<open>initialCreator\<close>, is
  the \<open>snap\<close> of the session.
\<close>

definition firstSession :: session where
  "firstSession =
     handlerRan (askCurrentQuestion initialCreator initialCreator)
       \<lparr> component = initialCreator, utterance = None, askTimers = 0 \<rparr>"

text \<open>The drafts that a log hands to \<open>onTaskCreated\<close>.\<close>

fun taskCreatedCalls :: "creator_effect list \<Rightarrow> TaskFormData list" where
  "taskCreatedCalls [] = []"
| "taskCreatedCalls (CallsOnTaskCreated d # es) = d # taskCreatedCalls es"
| "taskCreatedCalls (x # es) = taskCreatedCalls es"

text \<open>
  The scenario of the specification as the component lives it: the title question is
  spoken; then the five answers, each followed by the end of the utterance that answers
  it and, where \<open>nextQuestion\<close> was called, by its timer and the end of the question that
  the timer asks.
\<close>

definition scenarioEvents :: "dialogue_event list" where
  "scenarioEvents =
     [UtteranceEnds,
      Answer ''Buy milk'', UtteranceEnds, AskTimerFires, UtteranceEnds,
      Answer ''skip'', UtteranceEnds,
      Answer ''I'd say high priority'', UtteranceEnds, AskTimerFires, UtteranceEnds,
      Answer ''skip'', UtteranceEnds,
      Answer ''tomorrow'', UtteranceEnds, AskTimerFires, UtteranceEnds]"

text \<open>
  The skip test of \<open>processAnswer\<close> on the normalised answer, and what a session of the
  first render comes to: the slot index, the title, the callback of the utterance in
  flight and the pending timers. The proofs below show that these four, stepped by
  \<open>view_step\<close>, describe such a session completely.
\<close>

definition signalsSkip :: "string \<Rightarrow> bool" where
  "signalsSkip lowerAnswer =
     (str_includes lowerAnswer ''skip'' \<or> str_includes lowerAnswer ''no'' \<or> lowerAnswer = '''')"

type_synonym title_view = "nat \<times> string \<times> continuation option \<times> nat"

fun view_step :: "title_view \<Rightarrow> dialogue_event \<Rightarrow> title_view option" where
  "view_step (i, t, u, n) (Answer a) =
     Some (if signalsSkip (trim (toLowerCase a))
           then (i, t, Some ThenStartActiveListening, n)
           else (i, trim a, Some ThenNextQuestion, n))"
| "view_step (i, t, u, n) UtteranceEnds =
     (case u of
        None \<Rightarrow> None
      | Some k \<Rightarrow> Some (if k = ThenNextQuestion then (Suc i, t, None, Suc n) else (i, t, None, n)))"
| "view_step (i, t, u, n) AskTimerFires =
     (if n = 0 then None else Some (i, t, Some ThenStartActiveListening, n - 1))"

fun view_run :: "title_view \<Rightarrow> dialogue_event list \<Rightarrow> title_view option" where
  "view_run v [] = Some v"
| "view_run v (ev # evs) =
     (case view_step v ev of None \<Rightarrow> None | Some v' \<Rightarrow> view_run v' evs)"

definition views :: "title_view \<Rightarrow> session \<Rightarrow> bool" where
  "views v e =
     (case v of (i, t, u, n) \<Rightarrow>
        currentQuestionIndex (component e) = i \<and>
        taskData (component e) = initialTaskData\<lparr>title := t\<rparr> \<and>
        \<not> needsReminder (component e) \<and>
        taskCreatedCalls (log (component e)) = [] \<and>
        utterance e = u \<and>
        (u = None \<or> u = Some ThenNextQuestion \<or> u = Some ThenStartActiveListening) \<and>
        askTimers e = n)"

section \<open>Reminder Scheduler: \<open>ReminderManager\<close> (src/lib/reminders.ts)\<close>

text \<open>
  The two JavaScript \<open>Map\<close>s are association lists in insertion order (\<open>Map.set\<close> on a key
  that is present replaces the value in place, \<open>AList.update\<close>). The environment of the
  manager is part of the record: \<open>storedReminders\<close> is the array under the key
  \<open>voice-task-reminders\<close> of the local storage (\<open>None\<close>: no item, or one that does not
  parse), \<open>storedTasks\<close> is what \<open>getStoredTasks\<close> reads (the empty list when the item is
  absent or does not parse), \<open>pendingTimeouts\<close> are the timers of the runtime that have
  been set and neither fired nor been cleared, and \<open>callbackCalls\<close> lists the calls of the
  registered \<open>onReminderTriggered\<close> callback, oldest first. A \<open>Date\<close> is its time value in
  milliseconds; the time of a call is its argument \<open>now\<close>. The reminder handed to the
  timer closure is the object stored in the map, so the closure's view of it is its value
  when the timer was set.
\<close>

record Task =
  task_id :: string
  task_title :: string
  task_description :: "string option"
  completed :: bool
  task_priority :: string
  task_category :: "string option"
  createdAt :: int
  updatedAt :: int
  task_dueDate :: "int option"

record Reminder =
  reminder_id :: string
  taskId :: string
  reminderTime :: int
  message :: string
  isActive :: bool
  reminder_type :: string

record ReminderManager =
  reminders :: "(string \<times> Reminder) list"
  timeouts :: "(string \<times> nat) list"
  onReminderTriggered :: bool
  storedReminders :: "Reminder list option"
  storedTasks :: "Task list"
  pendingTimeouts :: "(nat \<times> Reminder) list"
  nextTimeoutHandle :: nat
  callbackCalls :: "(Reminder \<times> Task) list"

definition getStoredTasks :: "ReminderManager \<Rightarrow> Task list" where
  "getStoredTasks m = storedTasks m"

definition getTaskById :: "string \<Rightarrow> ReminderManager \<Rightarrow> Task option" where
  "getTaskById tid m = find (\<lambda>t. task_id t = tid) (getStoredTasks m)"

definition saveReminders :: "ReminderManager \<Rightarrow> ReminderManager" where
  "saveReminders m = m\<lparr>storedReminders := Some (map snd (reminders m))\<rparr>"

definition triggerReminder :: "Reminder \<Rightarrow> ReminderManager \<Rightarrow> ReminderManager" where
  "triggerReminder reminder0 m =
     (let reminder = reminder0\<lparr>isActive := False\<rparr>;
          m1 = m\<lparr>reminders := AList.update (reminder_id reminder) reminder (reminders m)\<rparr>;
          m2 = m1\<lparr>timeouts := AList.delete (reminder_id reminder) (timeouts m1)\<rparr>;
          m3 = saveReminders m2
      in if onReminderTriggered m3
         then (case getTaskById (taskId reminder) m3 of
                 Some task \<Rightarrow> m3\<lparr>callbackCalls := callbackCalls m3 @ [(reminder, task)]\<rparr>
               | None \<Rightarrow> m3)
         else m3)"

definition scheduleReminder :: "int \<Rightarrow> Reminder \<Rightarrow> ReminderManager \<Rightarrow> ReminderManager" where
  "scheduleReminder now reminder m =
     (let timeUntilReminder = reminderTime reminder - now in
      if timeUntilReminder \<le> 0 then triggerReminder reminder m
      else (let h = nextTimeoutHandle m in
            m\<lparr>pendingTimeouts := pendingTimeouts m @ [(h, reminder)],
              nextTimeoutHandle := Suc h,
              timeouts := AList.update (reminder_id reminder) h (timeouts m)\<rparr>))"

text \<open>The timer with handle \<open>h\<close> fires, if it is still pending.\<close>

definition timeoutFires :: "nat \<Rightarrow> ReminderManager \<Rightarrow> ReminderManager" where
  "timeoutFires h m =
     (case map_of (pendingTimeouts m) h of
        None \<Rightarrow> m
      | Some reminder \<Rightarrow>
          triggerReminder reminder (m\<lparr>pendingTimeouts := AList.delete h (pendingTimeouts m)\<rparr>))"

definition clearReminderTimeout :: "nat \<Rightarrow> ReminderManager \<Rightarrow> ReminderManager" where
  "clearReminderTimeout h m = m\<lparr>pendingTimeouts := AList.delete h (pendingTimeouts m)\<rparr>"

text \<open>The body of the \<open>forEach\<close> of \<open>loadReminders\<close>, for one element of the array.\<close>

definition loadOne :: "int \<Rightarrow> ReminderManager \<Rightarrow> Reminder \<Rightarrow> ReminderManager" where
  "loadOne now m reminder =
     (let m1 = m\<lparr>reminders := AList.update (reminder_id reminder) reminder (reminders m)\<rparr>
      in if isActive reminder then scheduleReminder now reminder m1 else m1)"

definition loadReminders :: "int \<Rightarrow> ReminderManager \<Rightarrow> ReminderManager" where
  "loadReminders now m =
     (case storedReminders m of
        None \<Rightarrow> m
      | Some remindersArray \<Rightarrow> foldl (loadOne now) m remindersArray)"

text \<open>The constructor, run at time \<open>now\<close> against the given content of the local storage.\<close>

definition ReminderManager_new :: "int \<Rightarrow> Reminder list option \<Rightarrow> Task list \<Rightarrow> ReminderManager" where
  "ReminderManager_new now stored tasks =
     loadReminders now
       \<lparr> reminders = [], timeouts = [], onReminderTriggered = False,
         storedReminders = stored, storedTasks = tasks,
         pendingTimeouts = [], nextTimeoutHandle = 1, callbackCalls = [] \<rparr>"

definition onReminder :: "ReminderManager \<Rightarrow> ReminderManager" where
  "onReminder m = m\<lparr>onReminderTriggered := True\<rparr>"

text \<open>\<open>addReminder\<close>; the identifier that \<open>generateId\<close> draws is the argument \<open>reminderId\<close>.\<close>

definition addReminder ::
  "int \<Rightarrow> string \<Rightarrow> string \<Rightarrow> int \<Rightarrow> string \<Rightarrow> ReminderManager \<Rightarrow> ReminderManager" where
  "addReminder now reminderId tid time ty m =
     (let reminder = \<lparr> reminder_id = reminderId, taskId = tid, reminderTime = time,
                       message = ''Reminder for your task'', isActive = True,
                       reminder_type = ty \<rparr>;
          m1 = m\<lparr>reminders := AList.update reminderId reminder (reminders m)\<rparr>
      in saveReminders (scheduleReminder now reminder m1))"

definition removeReminder :: "string \<Rightarrow> ReminderManager \<Rightarrow> ReminderManager" where
  "removeReminder reminderId m =
     (let m1 = (case map_of (timeouts m) reminderId of
                  Some h \<Rightarrow> (clearReminderTimeout h m)\<lparr>timeouts := AList.delete reminderId (timeouts m)\<rparr>
                | None \<Rightarrow> m)
      in saveReminders (m1\<lparr>reminders := AList.delete reminderId (reminders m1)\<rparr>))"

definition getAllActiveReminders :: "ReminderManager \<Rightarrow> Reminder list" where
  "getAllActiveReminders m = filter isActive (map snd (reminders m))"

text \<open>
  A reminder \<open>v\<close> with identifier \<open>k\<close> is settled: it is the value stored under \<open>k\<close>, it is in
  the persisted array, and no timer is registered or pending for \<open>k\<close>.
\<close>

definition settled :: "string \<Rightarrow> Reminder \<Rightarrow> ReminderManager \<Rightarrow> bool" where
  "settled k v m \<longleftrightarrow>
     map_of (reminders m) k = Some v \<and>
     (\<exists>saved. storedReminders m = Some saved \<and> v \<in> set saved) \<and>
     map_of (timeouts m) k = None \<and>
     k \<notin> reminder_id ` snd ` set (pendingTimeouts m)"

section \<open>Example states\<close>

text \<open>
  A manager on \<open>http://localhost\<close> with a wake-word callback registered, after
  \<open>startWakeWordListening()\<close> and the recognizer's \<open>onstart\<close>.
\<close>

definition listeningManager :: VoiceManager where
  "listeningManager =
     vm_run (VoiceManager_new True ''localhost'' ''http:'')
       [CallOnWakeWord, CallStartWakeWordListening Started, RecognizerStart]"

definition exampleTask :: Task where
  "exampleTask =
     \<lparr> task_id = ''t1'', task_title = ''Buy milk'', task_description = None, completed = False,
       task_priority = ''high'', task_category = None, createdAt = 0, updatedAt = 0,
       task_dueDate = None \<rparr>"

text \<open>A reminder for task \<open>t1\<close> that is due at time 700000; five minutes later it is 1000000.\<close>

definition exampleReminder :: Reminder where
  "exampleReminder =
     \<lparr> reminder_id = ''r1'', taskId = ''t1'', reminderTime = 700000,
       message = ''Reminder for your task'', isActive = True, reminder_type = ''both'' \<rparr>"

text \<open>A clock in UTC, and a reminder parser that understands nothing.\<close>

definition exampleClock :: clock where
  "exampleClock = \<lparr> now_ms = 1000000, tz_offset_ms = 0 \<rparr>"

definition noReminderParser :: "string \<Rightarrow> int option" where
  "noReminderParser speech = None"

section \<open>Facts about strings and traces\<close>

lemma str_includes_sublist: "str_includes s p \<longleftrightarrow> sublist p s"
  by (induction s) (auto simp: sublist_Cons_right)

lemmas vm_defs =
  VoiceManager_new_def emit_def notifyListening_def clearTimeout_def setRetryTimeout_def
  setPlainTimeout_def clearRetryTimeout_def safeStart_def safeStop_def
  startWakeWordListening_def stopWakeWordListening_def startActiveListening_def
  stopActiveListening_def resetRetryCount_def speak_def handleWakeWordDetected_def
  cleanup_def onstart_def onend_def onresult_def showSecurityAlertOnce_def onerror_def
  runTimerBody_def timerFires_def vm_run_def emitted_def wakeWord_def maxRetries_def

lemmas str_defs = toLowerCase_def lower_char_def trim_def isWhiteSpace_def

lemma vm_run_Nil [simp]: "vm_run s [] = s"
  by (simp add: vm_run_def)

lemma vm_run_Cons [simp]: "vm_run s (ev # evs) = vm_run (vm_step s ev) evs"
  by (simp add: vm_run_def)

lemma listeningManager_state:
  "isWaitingForWakeWord listeningManager"
  "onWakeWordDetected listeningManager"
  "isRecognizing listeningManager"
  "recognition listeningManager"
  "\<not> permanentlyDisabled listeningManager"
  "retryCount listeningManager = 0"
  "secureOrigin listeningManager"
  "trace listeningManager = [RecognitionStart]"
  by (simp_all add: listeningManager_def secureOrigin_def vm_defs)

lemma trace_handleWakeWordDetected:
  "trace (handleWakeWordDetected s) =
     trace s @ (if onWakeWordDetected s then [WakeWordCallback] else [])
       @ (if synthesis s
          then [SynthesisCancel, SynthesisSpeak ''Hello! I'm listening. How can I help you with your tasks?'']
          else [])"
  by (simp add: handleWakeWordDetected_def resetRetryCount_def clearRetryTimeout_def
      clearTimeout_def speak_def emit_def Let_def split: option.splits)

lemma onresult_waiting_miss:
  "isWaitingForWakeWord s \<Longrightarrow> \<not> str_includes (trim (toLowerCase t)) wakeWord \<Longrightarrow>
   onresult True t s = s\<lparr>retryCount := 0\<rparr>"
  by (simp add: onresult_def Let_def)

lemma onresult_waiting_hit:
  "isWaitingForWakeWord s \<Longrightarrow> str_includes (trim (toLowerCase t)) wakeWord \<Longrightarrow>
   onresult True t s = handleWakeWordDetected (s\<lparr>retryCount := 0\<rparr>)"
  by (simp add: onresult_def Let_def)

lemma wake_fires_iff:
  assumes "isWaitingForWakeWord s"
  shows "WakeWordCallback \<in> set (emitted s (onresult True t s)) \<longleftrightarrow>
         onWakeWordDetected s \<and> str_includes (trim (toLowerCase t)) ''hi voice''"
proof (cases "str_includes (trim (toLowerCase t)) wakeWord")
  case True
  with assms show ?thesis
    by (simp add: onresult_waiting_hit trace_handleWakeWordDetected emitted_def wakeWord_def)
next
  case False
  with assms show ?thesis
    by (simp add: onresult_waiting_miss emitted_def wakeWord_def)
qed

lemma misses_keep_waiting:
  assumes "isWaitingForWakeWord s"
    and "\<forall>t \<in> set ts. \<not> str_includes (trim (toLowerCase t)) ''hi voice''"
  shows "isWaitingForWakeWord (vm_run s (map (RecognizerResult True) ts)) \<and>
         trace (vm_run s (map (RecognizerResult True) ts)) = trace s"
  using assms
proof (induction ts arbitrary: s)
  case Nil
  then show ?case by simp
next
  case (Cons t ts)
  have step: "onresult True t s = s\<lparr>retryCount := 0\<rparr>"
    using Cons.prems by (simp add: onresult_waiting_miss wakeWord_def)
  have "isWaitingForWakeWord (s\<lparr>retryCount := 0\<rparr>)"
    using Cons.prems by simp
  from Cons.IH[OF this] Cons.prems(2) show ?case
    by (simp add: step)
qed

section \<open>Wake-word detection\<close>

text \<open>
  C1. While the controller waits for the wake word, a final recognition result makes the
  wake-word callback fire if and only if a callback is registered and the lower-cased,
  trimmed transcript contains the wake phrase "hi voice" as a substring; and after any
  sequence of final results none of which contains the phrase, the controller is still
  waiting for the wake word and the callback has not fired.
\<close>

theorem wake_word_detection:
  assumes "isWaitingForWakeWord s"
    and "\<forall>u \<in> set ts. \<not> str_includes (trim (toLowerCase u)) ''hi voice''"
  shows "(WakeWordCallback \<in> set (emitted s (onresult True t s)) \<longleftrightarrow>
            onWakeWordDetected s \<and> str_includes (trim (toLowerCase t)) ''hi voice'') \<and>
         isWaitingForWakeWord (vm_run s (map (RecognizerResult True) ts)) \<and>
         WakeWordCallback \<notin> set (emitted s (vm_run s (map (RecognizerResult True) ts)))"
  using wake_fires_iff[OF assms(1)] misses_keep_waiting[OF assms]
  by (simp add: emitted_def)

text \<open>
  The phrase inside a longer utterance, "Well, Hi Voice there", fires the callback; the two
  utterances "hello there" and "What time is it" leave the controller waiting.
\<close>

theorem wake_word_detection_witness:
  "isWaitingForWakeWord listeningManager \<and> onWakeWordDetected listeningManager \<and>
   \<not> str_includes (trim (toLowerCase ''hello there'')) ''hi voice'' \<and>
   \<not> str_includes (trim (toLowerCase ''What time is it'')) ''hi voice'' \<and>
   str_includes (trim (toLowerCase ''Well, Hi Voice there'')) ''hi voice'' \<and>
   WakeWordCallback \<in>
     set (emitted listeningManager (onresult True ''Well, Hi Voice there'' listeningManager)) \<and>
   isWaitingForWakeWord
     (vm_run listeningManager (map (RecognizerResult True) [''hello there'', ''What time is it''])) \<and>
   WakeWordCallback \<notin> set (emitted listeningManager
     (vm_run listeningManager (map (RecognizerResult True) [''hello there'', ''What time is it''])))"
proof -
  have m: "\<forall>u \<in> set [''hello there'', ''What time is it''].
           \<not> str_includes (trim (toLowerCase u)) ''hi voice''"
    by (simp add: str_defs)
  have h: "str_includes (trim (toLowerCase ''Well, Hi Voice there'')) ''hi voice''"
    by (simp add: str_defs)
  from wake_word_detection[OF listeningManager_state(1) m, of "''Well, Hi Voice there''"]
    listeningManager_state(1,2) m h
  show ?thesis by simp
qed

section \<open>The retry budget and the disabled state\<close>

lemma disabled_step: "permanentlyDisabled s \<Longrightarrow> permanentlyDisabled (vm_step s ev)"
  by (cases ev)
     (auto simp: vm_defs Let_def split: option.splits start_outcome.splits timer_body.splits)

lemma trace_step_disabled:
  "permanentlyDisabled s \<Longrightarrow>
   \<exists>xs. trace (vm_step s ev) = trace s @ xs \<and> RecognitionStart \<notin> set xs"
  by (cases ev)
     (auto simp: vm_defs Let_def split: option.splits start_outcome.splits timer_body.splits)

lemma retry_step:
  "(resetsRetryCount ev s \<longrightarrow> retryCount (vm_step s ev) = 0) \<and>
   (\<not> resetsRetryCount ev s \<longrightarrow>
      retryCount (vm_step s ev) = retryCount s \<or>
      ((\<exists>err. ev = RecognizerError err) \<and> retryCount (vm_step s ev) = retryCount s + 1))"
  by (cases ev)
     (auto simp: vm_defs Let_def split: option.splits start_outcome.splits timer_body.splits)

lemma disabled_run: "permanentlyDisabled s \<Longrightarrow> permanentlyDisabled (vm_run s evs)"
  by (induction evs arbitrary: s) (simp_all add: disabled_step)

lemma trace_run_disabled:
  "permanentlyDisabled s \<Longrightarrow>
   \<exists>xs. trace (vm_run s evs) = trace s @ xs \<and> RecognitionStart \<notin> set xs"
proof (induction evs arbitrary: s)
  case Nil
  then show ?case by simp
next
  case (Cons ev evs)
  from trace_step_disabled[OF Cons.prems] obtain xs where
    xs: "trace (vm_step s ev) = trace s @ xs" "RecognitionStart \<notin> set xs" by blast
  from Cons.IH[OF disabled_step[OF Cons.prems]] obtain ys where
    ys: "trace (vm_run (vm_step s ev) evs) = trace (vm_step s ev) @ ys"
        "RecognitionStart \<notin> set ys"
    by blast
  from xs ys show ?case by simp
qed

lemma no_start_when_disabled:
  "permanentlyDisabled s \<Longrightarrow> RecognitionStart \<notin> set (emitted s (vm_run s evs))"
  using trace_run_disabled[of s evs] by (auto simp: emitted_def)

lemma location_step:
  "location_hostname (vm_step s ev) = location_hostname s \<and>
   location_protocol (vm_step s ev) = location_protocol s"
  by (cases ev)
     (simp_all add: vm_defs Let_def split: option.splits start_outcome.splits timer_body.splits)

lemma secure_step [simp]: "secureOrigin (vm_step s ev) = secureOrigin s"
  by (simp add: secureOrigin_def location_step)

lemma network_error_step:
  assumes "secureOrigin s"
  shows "permanentlyDisabled (onerror ''network'' s) =
           (permanentlyDisabled s \<or> maxRetries \<le> retryCount s)"
    and "retryCount (onerror ''network'' s) =
           (if retryCount s < maxRetries then retryCount s + 1 else retryCount s)"
  using assms
  by (auto simp: secureOrigin_def vm_defs Let_def split: option.splits)

lemma cycle_step_neutral:
  assumes "retryCycleEvent ev" "ev \<noteq> RecognizerError ''network''"
  shows "permanentlyDisabled (vm_step s ev) = permanentlyDisabled s"
    and "retryCount (vm_step s ev) = retryCount s"
  using assms
  by (cases ev; auto simp: vm_defs Let_def
        split: option.splits start_outcome.splits timer_body.splits)+

lemma networkErrors_Cons:
  "networkErrors (ev # evs) =
     (if ev = RecognizerError ''network'' then 1 else 0) + networkErrors evs"
  by (simp add: networkErrors_def)

lemma disabled_after_cycle:
  assumes "secureOrigin s" "retryCount s \<le> maxRetries" "list_all retryCycleEvent evs"
  shows "permanentlyDisabled (vm_run s evs) \<longleftrightarrow>
         permanentlyDisabled s \<or> maxRetries < retryCount s + networkErrors evs"
  using assms
proof (induction evs arbitrary: s)
  case Nil
  then show ?case by (simp add: networkErrors_def)
next
  case (Cons ev evs)
  have sec: "secureOrigin (vm_step s ev)" using Cons.prems(1) by simp
  have rest: "list_all retryCycleEvent evs" using Cons.prems(3) by simp
  show ?case
  proof (cases "ev = RecognizerError ''network''")
    case True
    have d: "permanentlyDisabled (vm_step s ev) =
               (permanentlyDisabled s \<or> maxRetries \<le> retryCount s)"
      and r: "retryCount (vm_step s ev) =
               (if retryCount s < maxRetries then retryCount s + 1 else retryCount s)"
      using network_error_step[OF Cons.prems(1)] True by simp_all
    have le: "retryCount (vm_step s ev) \<le> maxRetries" using r Cons.prems(2) by simp
    from Cons.IH[OF sec le rest] d r True Cons.prems(2) show ?thesis
      by (auto simp: networkErrors_Cons)
  next
    case False
    have ce: "retryCycleEvent ev" using Cons.prems(3) by simp
    have d: "permanentlyDisabled (vm_step s ev) = permanentlyDisabled s"
      and r: "retryCount (vm_step s ev) = retryCount s"
      using cycle_step_neutral[OF ce False] by simp_all
    have le: "retryCount (vm_step s ev) \<le> maxRetries" using r Cons.prems(2) by simp
    from Cons.IH[OF sec le rest] d r False show ?thesis
      by (simp add: networkErrors_Cons)
  qed
qed

text \<open>
  C2, as stated, fails: after \<open>startWakeWordListening()\<close> on \<open>http://localhost\<close>, three
  consecutive network errors leave the controller enabled (\<open>retryCount\<close> is then 3 and a
  third retry is scheduled).
\<close>

theorem three_network_errors_counterexample:
  "\<not> permanentlyDisabled
       (vm_run (VoiceManager_new True ''localhost'' ''http:'')
          [CallStartWakeWordListening Started, RecognizerStart,
           RecognizerError ''network'', RecognizerError ''network'', RecognizerError ''network''])"
  by (simp add: vm_defs)

text \<open>
  C2, amended. On a secure origin, from a state with \<open>retryCount = 0\<close> that is not
  disabled, a retry cycle (network errors with the recognizer starting and ending and
  timers firing between them) ends in the PermanentlyDisabled state exactly when it
  contains at least four network errors: each of the first three uses one of the three
  retries, the error that finds \<open>retryCount = maxRetries\<close> disables. Once the controller is
  PermanentlyDisabled, it stays so through every further call and event
  (\<open>startWakeWordListening()\<close>, \<open>resetRetryCount()\<close>, handlers, timers), and none of them
  calls \<open>recognition.start()\<close>.
\<close>

theorem disabled_on_fourth_network_error:
  assumes "secureOrigin s" "retryCount s = 0" "\<not> permanentlyDisabled s"
    and "list_all retryCycleEvent evs"
  shows "(permanentlyDisabled (vm_run s evs) \<longleftrightarrow> 4 \<le> networkErrors evs) \<and>
         (permanentlyDisabled (vm_run s evs) \<longrightarrow>
            permanentlyDisabled (vm_run (vm_run s evs) evs') \<and>
            RecognitionStart \<notin> set (emitted (vm_run s evs) (vm_run (vm_run s evs) evs')))"
proof -
  have "retryCount s \<le> maxRetries" using assms(2) by simp
  from disabled_after_cycle[OF assms(1) this assms(4)] assms(2,3)
  have "permanentlyDisabled (vm_run s evs) \<longleftrightarrow> 4 \<le> networkErrors evs"
    by (auto simp: maxRetries_def)
  then show ?thesis
    using disabled_run no_start_when_disabled by blast
qed

text \<open>
  Four network errors, each followed by the end of the session, disable the listening
  manager; \<open>resetRetryCount()\<close> followed by \<open>startWakeWordListening()\<close> then starts nothing.
\<close>

theorem disabled_on_fourth_network_error_witness:
  "secureOrigin listeningManager \<and> retryCount listeningManager = 0 \<and>
   \<not> permanentlyDisabled listeningManager \<and>
   permanentlyDisabled
     (vm_run listeningManager
        [RecognizerError ''network'', RecognizerEnd, RecognizerError ''network'', RecognizerEnd,
         RecognizerError ''network'', RecognizerEnd, RecognizerError ''network'', RecognizerEnd]) \<and>
   permanentlyDisabled
     (vm_run (vm_run listeningManager
        [RecognizerError ''network'', RecognizerEnd, RecognizerError ''network'', RecognizerEnd,
         RecognizerError ''network'', RecognizerEnd, RecognizerError ''network'', RecognizerEnd])
        [CallResetRetryCount, CallStartWakeWordListening Started]) \<and>
   RecognitionStart \<notin> set (emitted
     (vm_run listeningManager
        [RecognizerError ''network'', RecognizerEnd, RecognizerError ''network'', RecognizerEnd,
         RecognizerError ''network'', RecognizerEnd, RecognizerError ''network'', RecognizerEnd])
     (vm_run (vm_run listeningManager
        [RecognizerError ''network'', RecognizerEnd, RecognizerError ''network'', RecognizerEnd,
         RecognizerError ''network'', RecognizerEnd, RecognizerError ''network'', RecognizerEnd])
        [CallResetRetryCount, CallStartWakeWordListening Started]))"
proof -
  have c: "list_all retryCycleEvent
        [RecognizerError ''network'', RecognizerEnd, RecognizerError ''network'', RecognizerEnd,
         RecognizerError ''network'', RecognizerEnd, RecognizerError ''network'', RecognizerEnd]"
    by simp
  have n: "4 \<le> networkErrors
        [RecognizerError ''network'', RecognizerEnd, RecognizerError ''network'', RecognizerEnd,
         RecognizerError ''network'', RecognizerEnd, RecognizerError ''network'', RecognizerEnd]"
    by (simp add: networkErrors_def)
  from disabled_on_fourth_network_error[OF listeningManager_state(7,6,5) c,
      of "[CallResetRetryCount, CallStartWakeWordListening Started]"] n
    listeningManager_state(5,6,7)
  show ?thesis by blast
qed

section \<open>Permission denied\<close>

text \<open>
  C6, as stated, fails: a \<open>not-allowed\<close> error does not put the controller into the
  PermanentlyDisabled state, and once the session has ended a plain call of
  \<open>startWakeWordListening()\<close> starts the recognizer again.
\<close>

theorem not_allowed_counterexample:
  "\<not> permanentlyDisabled (vm_run listeningManager [RecognizerError ''not-allowed'']) \<and>
   RecognitionStart \<in> set (emitted
     (vm_run listeningManager [RecognizerError ''not-allowed''])
     (vm_run listeningManager
        [RecognizerError ''not-allowed'', RecognizerEnd, CallStartWakeWordListening Started]))"
  by (simp add: listeningManager_def vm_defs)

text \<open>
  C6, amended. When the recognizer reports \<open>not-allowed\<close>, the controller shows the
  microphone-denied alert, stops waiting for the wake word, reports the listening state
  \<open>false\<close> to a registered listener and schedules no retry; \<open>retryCount\<close> and the
  PermanentlyDisabled flag are left as they were. So, unless the controller was disabled
  before, a call of \<open>startWakeWordListening()\<close> after the session has ended starts the
  recognizer again.
\<close>

theorem not_allowed_stops_without_disabling:
  "permanentlyDisabled (onerror ''not-allowed'' s) = permanentlyDisabled s \<and>
   \<not> isWaitingForWakeWord (onerror ''not-allowed'' s) \<and>
   retryCount (onerror ''not-allowed'' s) = retryCount s \<and>
   retryTimeoutId (onerror ''not-allowed'' s) = None \<and>
   emitted s (onerror ''not-allowed'' s) =
     Alert MicrophoneDeniedAlert #
       (if onListeningStateChange s then [ListeningStateChange False] else []) \<and>
   (recognition s \<and> \<not> permanentlyDisabled s \<longrightarrow>
      RecognitionStart \<in> set (emitted (onerror ''not-allowed'' s)
        (vm_run (onerror ''not-allowed'' s) [RecognizerEnd, CallStartWakeWordListening out])))"
  by (cases out) (auto simp: vm_defs Let_def split: option.splits)

theorem not_allowed_stops_without_disabling_witness:
  "recognition listeningManager \<and> \<not> permanentlyDisabled listeningManager \<and>
   \<not> permanentlyDisabled (onerror ''not-allowed'' listeningManager) \<and>
   \<not> isWaitingForWakeWord (onerror ''not-allowed'' listeningManager) \<and>
   RecognitionStart \<in> set (emitted (onerror ''not-allowed'' listeningManager)
     (vm_run (onerror ''not-allowed'' listeningManager)
        [RecognizerEnd, CallStartWakeWordListening Started]))"
  using not_allowed_stops_without_disabling[of listeningManager Started]
    listeningManager_state(4,5)
  by simp

section \<open>Resets of the retry counter\<close>

text \<open>
  C8, as stated, fails: after two network errors \<open>retryCount\<close> is 2, and a call of the
  public method \<open>resetRetryCount()\<close>, which is neither a recognized utterance nor a start,
  sets it to 0.
\<close>

theorem reset_call_counterexample:
  "retryCount (vm_run listeningManager
      [RecognizerError ''network'', RecognizerError ''network'']) = 2 \<and>
   retryCount (vm_run listeningManager
      [RecognizerError ''network'', RecognizerError ''network'', CallResetRetryCount]) = 0"
  by (simp add: listeningManager_def vm_defs)

text \<open>
  C8, amended. \<open>retryCount\<close> is set to 0 by every final recognition result, by
  \<open>startWakeWordListening()\<close> called while no recognition session is running, and by the
  explicit calls \<open>resetRetryCount()\<close> and \<open>cleanup()\<close>. Every other call or event, and so
  every restart attempt (the recognizer starting or ending, a retry timer firing,
  \<open>startWakeWordListening()\<close> during a running session), leaves it unchanged, except that an
  error may add one to it.
\<close>

theorem retry_count_resets:
  "(resetsRetryCount ev s \<longrightarrow> retryCount (vm_step s ev) = 0) \<and>
   (\<not> resetsRetryCount ev s \<longrightarrow>
      retryCount (vm_step s ev) = retryCount s \<or>
      ((\<exists>err. ev = RecognizerError err) \<and> retryCount (vm_step s ev) = retryCount s + 1))"
  by (rule retry_step)

text \<open>
  After two network errors: a final result resets the counter, the end of the session
  (which schedules a restart) leaves it at 2.
\<close>

theorem retry_count_resets_witness:
  "resetsRetryCount (RecognizerResult True ''hello'')
     (vm_run listeningManager [RecognizerError ''network'', RecognizerError ''network'']) \<and>
   retryCount (vm_step
     (vm_run listeningManager [RecognizerError ''network'', RecognizerError ''network''])
     (RecognizerResult True ''hello'')) = 0 \<and>
   \<not> resetsRetryCount RecognizerEnd
     (vm_run listeningManager [RecognizerError ''network'', RecognizerError ''network'']) \<and>
   retryCount (vm_step
     (vm_run listeningManager [RecognizerError ''network'', RecognizerError ''network''])
     RecognizerEnd) = 2"
proof -
  have two: "retryCount (vm_run listeningManager
      [RecognizerError ''network'', RecognizerError ''network'']) = 2"
    by (simp add: listeningManager_def vm_defs)
  from retry_count_resets[of "RecognizerResult True ''hello''"
      "vm_run listeningManager [RecognizerError ''network'', RecognizerError ''network'']"]
    retry_count_resets[of RecognizerEnd
      "vm_run listeningManager [RecognizerError ''network'', RecognizerError ''network'']"]
    two
  show ?thesis by simp
qed

section \<open>The slot-filling dialogue\<close>

lemma length_taskQuestions [simp]: "length taskQuestions = 5"
  by (simp add: taskQuestions_def)

lemma taskQuestions_field:
  "field (taskQuestions ! 0) = ''title''"
  "field (taskQuestions ! 1) = ''description''"
  "field (taskQuestions ! 2) = ''priority''"
  "field (taskQuestions ! 3) = ''category''"
  "field (taskQuestions ! 4) = ''dueDate''"
  by (simp_all add: taskQuestions_def)

lemma taskQuestions_followUp:
  "followUpText (taskQuestions ! 0) = ''Got it!''"
  "followUpText (taskQuestions ! 1) = ''Description noted.''"
  "followUpText (taskQuestions ! 2) = ''Priority set.''"
  "followUpText (taskQuestions ! 3) = ''Category added.''"
  "followUpText (taskQuestions ! 4) = ''Due date set.''"
  by (simp_all add: taskQuestions_def followUpText_def)

lemma creator_fields_does:
  "currentQuestionIndex (does e s) = currentQuestionIndex s"
  "taskData (does e s) = taskData s"
  "needsReminder (does e s) = needsReminder s"
  "creatorReminderTime (does e s) = creatorReminderTime s"
  by (simp_all add: does_def)

lemma processAnswer_title_required:
  assumes "\<not> (needsReminder snap \<and> creatorReminderTime snap = None)"
    and "currentQuestionIndex snap = 0"
    and "str_includes (trim (toLowerCase answer)) ''skip'' \<or>
         str_includes (trim (toLowerCase answer)) ''no'' \<or>
         trim (toLowerCase answer) = ''''"
  shows "processAnswer pr clk snap answer s =
           s\<lparr>isProcessing := False,
             log := log s @ [CallsSpeak
               (Say ''Task title is required. Please tell me what you'd like to call this task.'')
               ThenStartActiveListening]\<rparr>"
proof -
  have nr: "(needsReminder snap \<and> creatorReminderTime snap = None) = False"
    using assms(1) by blast
  have idx: "(length taskQuestions \<le> currentQuestionIndex snap) = False"
    using assms(2) by simp
  have sk: "(str_includes (trim (toLowerCase answer)) ''skip'' \<or>
         str_includes (trim (toLowerCase answer)) ''no'' \<or>
         trim (toLowerCase answer) = '''') = True"
    using assms(3) by blast
  show ?thesis
    unfolding processAnswer_def Let_def
    by (simp only: nr idx sk if_False if_True assms(2) taskQuestions_field refl)
       (simp add: does_def)
qed

lemma processAnswer_stores:
  assumes "\<not> (needsReminder snap \<and> creatorReminderTime snap = None)"
    and "\<not> (str_includes (trim (toLowerCase answer)) ''skip'' \<or>
            str_includes (trim (toLowerCase answer)) ''no'' \<or>
            trim (toLowerCase answer) = '''')"
  shows "currentQuestionIndex snap = 0 \<Longrightarrow>
         processAnswer pr clk snap answer s =
           does (CallsSpeak (Say (''Got it!'' @ trim (toLowerCase answer) @ ''.'')) ThenNextQuestion)
             (s\<lparr>taskData := (taskData s)\<lparr>title := trim answer\<rparr>\<rparr>)"
    and "currentQuestionIndex snap = 2 \<Longrightarrow>
         processAnswer pr clk snap answer s =
           does (CallsSpeak
                   (Say (''Priority set.'' @ resolvePriority (trim (toLowerCase answer)) @ ''.''))
                   ThenNextQuestion)
             (s\<lparr>taskData :=
                  (taskData s)\<lparr>priority := resolvePriority (trim (toLowerCase answer))\<rparr>\<rparr>)"
    and "currentQuestionIndex snap = 4 \<Longrightarrow>
         processAnswer pr clk snap answer s =
           (case parseDateFromSpeech clk (trim (toLowerCase answer)) of
              Some d \<Rightarrow> does (CallsSpeak (SayDateFeedback ''Due date set.'' d) ThenNextQuestion)
                          (s\<lparr>taskData := (taskData s)\<lparr>dueDate := Some d\<rparr>\<rparr>)
            | None \<Rightarrow> does (CallsSpeak (Say (''Due date set.'' @ trim (toLowerCase answer) @ ''.''))
                           ThenNextQuestion) s)"
proof -
  have nr: "(needsReminder snap \<and> creatorReminderTime snap = None) = False"
    using assms(1) by blast
  have sk: "(str_includes (trim (toLowerCase answer)) ''skip'' \<or>
         str_includes (trim (toLowerCase answer)) ''no'' \<or>
         trim (toLowerCase answer) = '''') = False"
    using assms(2) by blast
  show "currentQuestionIndex snap = 0 \<Longrightarrow>
         processAnswer pr clk snap answer s =
           does (CallsSpeak (Say (''Got it!'' @ trim (toLowerCase answer) @ ''.'')) ThenNextQuestion)
             (s\<lparr>taskData := (taskData s)\<lparr>title := trim answer\<rparr>\<rparr>)"
    unfolding processAnswer_def Let_def
    by (simp only: nr sk if_False) (simp add: taskQuestions_field taskQuestions_followUp)
  show "currentQuestionIndex snap = 2 \<Longrightarrow>
         processAnswer pr clk snap answer s =
           does (CallsSpeak
                   (Say (''Priority set.'' @ resolvePriority (trim (toLowerCase answer)) @ ''.''))
                   ThenNextQuestion)
             (s\<lparr>taskData :=
                  (taskData s)\<lparr>priority := resolvePriority (trim (toLowerCase answer))\<rparr>\<rparr>)"
    unfolding processAnswer_def Let_def
    by (simp only: nr sk if_False) (simp add: taskQuestions_field taskQuestions_followUp)
  show "currentQuestionIndex snap = 4 \<Longrightarrow>
         processAnswer pr clk snap answer s =
           (case parseDateFromSpeech clk (trim (toLowerCase answer)) of
              Some d \<Rightarrow> does (CallsSpeak (SayDateFeedback ''Due date set.'' d) ThenNextQuestion)
                          (s\<lparr>taskData := (taskData s)\<lparr>dueDate := Some d\<rparr>\<rparr>)
            | None \<Rightarrow> does (CallsSpeak (Say (''Due date set.'' @ trim (toLowerCase answer) @ ''.''))
                           ThenNextQuestion) s)"
    unfolding processAnswer_def Let_def
    by (simp only: nr sk if_False)
       (simp add: taskQuestions_field taskQuestions_followUp split: option.splits)
qed

lemma normalized_answers:
  "trim (toLowerCase ''Buy milk'') = ''buy milk''"
  "trim ''Buy milk'' = ''Buy milk''"
  "trim (toLowerCase ''skip'') = ''skip''"
  "trim (toLowerCase ''I'd say high priority'') = ''i'd say high priority''"
  "trim (toLowerCase ''tomorrow'') = ''tomorrow''"
  "trim (toLowerCase ''no'') = ''no''"
  "trim (toLowerCase ''next Friday'') = ''next friday''"
  "trim (toLowerCase ''Notebook shopping'') = ''notebook shopping''"
  by (simp_all add: str_defs)

subsection \<open>The required title slot\<close>

text \<open>
  C3. In the slot phase, at the title slot (index 0), a transcript whose lower-cased,
  trimmed form contains "skip" or "no" or is empty makes the engine speak the corrective
  prompt "Task title is required. ..." (after which it listens again) and changes nothing
  else but the processing flag: the slot index does not advance and the collected title
  is what it was, so a title that was unset stays unset.
\<close>

theorem title_slot_rejects_skip:
  assumes "\<not> (needsReminder snap \<and> creatorReminderTime snap = None)"
    and "currentQuestionIndex snap = 0"
    and "str_includes (trim (toLowerCase answer)) ''skip'' \<or>
         str_includes (trim (toLowerCase answer)) ''no'' \<or>
         trim (toLowerCase answer) = ''''"
  shows "processAnswer pr clk snap answer s =
           s\<lparr>isProcessing := False,
             log := log s @ [CallsSpeak
               (Say ''Task title is required. Please tell me what you'd like to call this task.'')
               ThenStartActiveListening]\<rparr> \<and>
         currentQuestionIndex (processAnswer pr clk snap answer s) = currentQuestionIndex s \<and>
         taskData (processAnswer pr clk snap answer s) = taskData s \<and>
         (title (taskData s) = '''' \<longrightarrow> title (taskData (processAnswer pr clk snap answer s)) = '''')"
  by (simp add: processAnswer_title_required[OF assms])

text \<open>At the start of a session the answers "skip" and "  " (blank) are both rejected.\<close>

theorem title_slot_rejects_skip_witness:
  "currentQuestionIndex initialCreator = 0 \<and>
   \<not> (needsReminder initialCreator \<and> creatorReminderTime initialCreator = None) \<and>
   str_includes (trim (toLowerCase ''skip'')) ''skip'' \<and>
   currentQuestionIndex (processAnswer noReminderParser exampleClock initialCreator ''skip'' initialCreator) = 0 \<and>
   title (taskData (processAnswer noReminderParser exampleClock initialCreator ''skip'' initialCreator)) = '''' \<and>
   log (processAnswer noReminderParser exampleClock initialCreator ''skip'' initialCreator) =
     [CallsSpeak (Say ''Task title is required. Please tell me what you'd like to call this task.'')
        ThenStartActiveListening] \<and>
   trim (toLowerCase ''  '') = '''' \<and>
   currentQuestionIndex (processAnswer noReminderParser exampleClock initialCreator ''  '' initialCreator) = 0 \<and>
   title (taskData (processAnswer noReminderParser exampleClock initialCreator ''  '' initialCreator)) = ''''"
proof -
  have n: "\<not> (needsReminder initialCreator \<and> creatorReminderTime initialCreator = None)"
    and i: "currentQuestionIndex initialCreator = 0"
    and t: "title (taskData initialCreator) = ''''"
    and l: "log initialCreator = []"
    by (simp_all add: initialCreator_def initialTaskData_def)
  have a: "str_includes (trim (toLowerCase ''skip'')) ''skip''"
    and b: "trim (toLowerCase ''  '') = ''''"
    by (simp_all add: str_defs)
  from title_slot_rejects_skip[OF n i, of "''skip''" noReminderParser exampleClock initialCreator]
    title_slot_rejects_skip[OF n i, of "''  ''" noReminderParser exampleClock initialCreator]
    n i t l a b
  show ?thesis by simp
qed

subsection \<open>A session of the first render\<close>

lemma taskCreatedCalls_append:
  "taskCreatedCalls (xs @ ys) = taskCreatedCalls xs @ taskCreatedCalls ys"
  by (induction xs rule: taskCreatedCalls.induct) simp_all

lemma initialCreator_reads:
  "\<not> (needsReminder initialCreator \<and> creatorReminderTime initialCreator = None)"
  "currentQuestionIndex initialCreator = 0"
  by (simp_all add: initialCreator_def)

text \<open>
  What \<open>processAnswer\<close> of the first render does, whatever the current state: it asks for
  the title again, or it stores the answer as the title.
\<close>

lemma processAnswer_first_render:
  "processAnswer pr clk initialCreator answer s =
     (if signalsSkip (trim (toLowerCase answer))
      then s\<lparr>isProcessing := False,
             log := log s @ [CallsSpeak
               (Say ''Task title is required. Please tell me what you'd like to call this task.'')
               ThenStartActiveListening]\<rparr>
      else does (CallsSpeak (Say (''Got it!'' @ trim (toLowerCase answer) @ ''.'')) ThenNextQuestion)
             (s\<lparr>taskData := (taskData s)\<lparr>title := trim answer\<rparr>\<rparr>))"
proof (cases "signalsSkip (trim (toLowerCase answer))")
  case True
  then have "str_includes (trim (toLowerCase answer)) ''skip'' \<or>
         str_includes (trim (toLowerCase answer)) ''no'' \<or>
         trim (toLowerCase answer) = ''''"
    by (simp add: signalsSkip_def)
  from processAnswer_title_required[OF initialCreator_reads this] True
  show ?thesis by simp
next
  case False
  then have "\<not> (str_includes (trim (toLowerCase answer)) ''skip'' \<or>
            str_includes (trim (toLowerCase answer)) ''no'' \<or>
            trim (toLowerCase answer) = '''')"
    by (simp add: signalsSkip_def)
  from processAnswer_stores(1)[OF initialCreator_reads(1) this initialCreator_reads(2)] False
  show ?thesis by simp
qed

lemma askCurrentQuestion_first_render:
  "askCurrentQuestion initialCreator s =
     does (CallsSpeak (Say ''What would you like to call this task?'') ThenStartActiveListening) s"
  by (simp add: askCurrentQuestion_def initialCreator_reads(2) taskQuestions_def)

lemma firstSession_view: "views (0, '''', Some ThenStartActiveListening, 0) firstSession"
  unfolding firstSession_def askCurrentQuestion_first_render
  by (simp add: views_def handlerRan_def does_def initialCreator_def initialTaskData_def)

lemma view_step_simulates:
  assumes "views v e"
  shows "case view_step v ev of
           None \<Rightarrow> session_step pr clk initialCreator e ev = None
         | Some v' \<Rightarrow> (\<exists>e'. session_step pr clk initialCreator e ev = Some e' \<and> views v' e')"
proof -
  obtain i t u n where v: "v = (i, t, u, n)"
    by (cases v) auto
  from assms v have c:
    "currentQuestionIndex (component e) = i"
    "taskData (component e) = initialTaskData\<lparr>title := t\<rparr>"
    "\<not> needsReminder (component e)"
    "taskCreatedCalls (log (component e)) = []"
    "utterance e = u"
    "u = None \<or> u = Some ThenNextQuestion \<or> u = Some ThenStartActiveListening"
    "askTimers e = n"
    by (simp_all add: views_def)
  show ?thesis
  proof (cases ev)
    case (Answer a)
    show ?thesis
      using c unfolding v Answer
      by (simp add: views_def handlerRan_def processAnswer_first_render handleSpeechResult_def
          does_def taskCreatedCalls_append)
  next
    case UtteranceEnds
    from c(6) show ?thesis
    proof (elim disjE)
      assume "u = None"
      then show ?thesis
        using c unfolding v UtteranceEnds by simp
    next
      assume "u = Some ThenNextQuestion"
      then show ?thesis
        using c unfolding v UtteranceEnds
        by (simp add: views_def handlerRan_def runContinuation_def nextQuestion_def does_def
            taskCreatedCalls_append)
    next
      assume "u = Some ThenStartActiveListening"
      then show ?thesis
        using c unfolding v UtteranceEnds
        by (simp add: views_def handlerRan_def runContinuation_def does_def
            taskCreatedCalls_append)
    qed
  next
    case AskTimerFires
    show ?thesis
      using c unfolding v AskTimerFires
      by (simp add: views_def handlerRan_def askCurrentQuestion_first_render does_def
          taskCreatedCalls_append)
  qed
qed

lemma view_run_simulates:
  assumes "views v e"
  shows "case view_run v evs of
           None \<Rightarrow> session_run pr clk initialCreator e evs = None
         | Some v' \<Rightarrow> (\<exists>e'. session_run pr clk initialCreator e evs = Some e' \<and> views v' e')"
  using assms
proof (induction evs arbitrary: v e)
  case Nil
  then show ?case by simp
next
  case (Cons ev evs)
  show ?case
  proof (cases "view_step v ev")
    case None
    with view_step_simulates[OF Cons.prems, where ev = ev and pr = pr and clk = clk]
    show ?thesis by simp
  next
    case (Some v')
    with view_step_simulates[OF Cons.prems, where ev = ev and pr = pr and clk = clk]
    obtain e' where
      e': "session_step pr clk initialCreator e ev = Some e'" "views v' e'"
      by auto
    from Cons.IH[OF e'(2)] Some e'(1) show ?thesis
      by (auto split: option.splits)
  qed
qed

lemma session_run_append:
  "session_run pr clk snap e (evs @ evs') =
     (case session_run pr clk snap e evs of
        None \<Rightarrow> None
      | Some e' \<Rightarrow> session_run pr clk snap e' evs')"
  by (induction evs arbitrary: e) (simp_all split: option.splits)

lemma scenario_view:
  "view_run (0, '''', Some ThenStartActiveListening, 0) scenarioEvents =
     Some (3, ''tomorrow'', None, 0)"
  by (simp add: scenarioEvents_def signalsSkip_def str_defs)

lemma scenario_end:
  "\<exists>e. session_run pr clk initialCreator firstSession scenarioEvents = Some e \<and>
       views (3, ''tomorrow'', None, 0) e"
  using view_run_simulates[OF firstSession_view, where evs = scenarioEvents and pr = pr
      and clk = clk]
  by (simp add: scenario_view)

subsection \<open>The end-to-end scenario\<close>

text \<open>
  C4. The claim does not hold of the code. In the first voice session the five answers
  "Buy milk", "skip", "I'd say high priority", "skip", "tomorrow" are all processed by the
  handler of the first render, for which the current question is the title: "Buy milk",
  "I'd say high priority" and "tomorrow" are stored as the title one after the other, each
  "skip" is answered with the title-required prompt. At the end the slot index is 3, the
  title is "tomorrow", the priority is still the initial "medium", description, category
  and due date are unset, and no draft has been handed to \<open>onTaskCreated\<close>.
\<close>

theorem scenario_stays_on_title:
  "map_option
     (\<lambda>e. (currentQuestionIndex (component e), taskData (component e),
           taskCreatedCalls (log (component e))))
     (session_run pr clk initialCreator firstSession scenarioEvents) =
   Some (3,
         \<lparr>title = ''tomorrow'', description = '''', priority = ''medium'', category = '''',
          dueDate = None\<rparr>,
         [])"
proof -
  from scenario_end obtain e where
    e: "session_run pr clk initialCreator firstSession scenarioEvents = Some e"
       "views (3, ''tomorrow'', None, 0) e"
    by blast
  then show ?thesis
    by (simp add: views_def initialTaskData_def)
qed

subsection \<open>"no" and "skip" in answers to the other slots\<close>

text \<open>
  C9. The claim does not hold of the code. Whatever slot the component's state is at, the
  handler of the first render takes a transcript that contains "no" or "skip" as a
  refused title: it speaks the title-required prompt and neither advances nor stores
  anything. So after the scenario above, with the state at slot 3 (the category), the
  answer "Notebook shopping" leaves the slot index at 3 and the category unset, and the
  engine is asking for the title.
\<close>

theorem no_in_answer_asks_for_title:
  "processAnswer pr clk initialCreator ''Notebook shopping'' s =
     s\<lparr>isProcessing := False,
       log := log s @ [CallsSpeak
         (Say ''Task title is required. Please tell me what you'd like to call this task.'')
         ThenStartActiveListening]\<rparr> \<and>
   map_option
     (\<lambda>e. (currentQuestionIndex (component e), category (taskData (component e)),
           utterance e, last (log (component e))))
     (session_run pr clk initialCreator firstSession
        (scenarioEvents @ [Answer ''Notebook shopping''])) =
   Some (3, '''', Some ThenStartActiveListening,
         CallsSpeak
           (Say ''Task title is required. Please tell me what you'd like to call this task.'')
           ThenStartActiveListening)"
proof -
  have skip: "signalsSkip (trim (toLowerCase ''Notebook shopping''))"
    by (simp add: signalsSkip_def normalized_answers)
  have first: "processAnswer pr clk initialCreator ''Notebook shopping'' s =
     s\<lparr>isProcessing := False,
       log := log s @ [CallsSpeak
         (Say ''Task title is required. Please tell me what you'd like to call this task.'')
         ThenStartActiveListening]\<rparr>" for s
    using skip by (simp add: processAnswer_first_render)
  from scenario_end obtain e where
    e: "session_run pr clk initialCreator firstSession scenarioEvents = Some e"
       "views (3, ''tomorrow'', None, 0) e"
    by blast
  have "map_option
     (\<lambda>e. (currentQuestionIndex (component e), category (taskData (component e)),
           utterance e, last (log (component e))))
     (session_run pr clk initialCreator firstSession
        (scenarioEvents @ [Answer ''Notebook shopping''])) =
   Some (3, '''', Some ThenStartActiveListening,
         CallsSpeak
           (Say ''Task title is required. Please tell me what you'd like to call this task.'')
           ThenStartActiveListening)"
    using e
    by (simp add: session_run_append first handlerRan_def handleSpeechResult_def does_def
        views_def initialTaskData_def)
  with first show ?thesis by simp
qed

subsection \<open>The date slot\<close>

text \<open>
  C7. The claim that weekday names are resolved does not hold of the code: of the weekday
  names only "monday" is recognised. "next Friday", the example the engine's own prompt
  gives, and every other weekday resolve to nothing; \<open>processAnswer\<close>, run for the date
  slot on the answer "next Friday", leaves the due date unset and confirms with
  "Due date set." all the same. ("today", "tomorrow", "next week" and "monday" are
  resolved.)
\<close>

theorem weekday_names_unresolved:
  "parseDateFromSpeech clk ''next friday'' = None \<and>
   parseDateFromSpeech clk ''tuesday'' = None \<and>
   parseDateFromSpeech clk ''wednesday'' = None \<and>
   parseDateFromSpeech clk ''thursday'' = None \<and>
   parseDateFromSpeech clk ''saturday'' = None \<and>
   parseDateFromSpeech clk ''sunday'' = None \<and>
   parseDateFromSpeech clk ''monday'' \<noteq> None \<and>
   processAnswer pr clk (initialCreator\<lparr>currentQuestionIndex := 4\<rparr>) ''next Friday''
       (initialCreator\<lparr>currentQuestionIndex := 4\<rparr>) =
     does (CallsSpeak (Say ''Due date set.next friday.'') ThenNextQuestion)
       (initialCreator\<lparr>currentQuestionIndex := 4\<rparr>) \<and>
   dueDate (taskData (processAnswer pr clk (initialCreator\<lparr>currentQuestionIndex := 4\<rparr>)
       ''next Friday'' (initialCreator\<lparr>currentQuestionIndex := 4\<rparr>))) = None"
proof -
  let ?s = "initialCreator\<lparr>currentQuestionIndex := 4\<rparr>"
  have p: "parseDateFromSpeech clk ''next friday'' = None"
    by (simp add: parseDateFromSpeech_def str_defs Let_def)
  have others: "parseDateFromSpeech clk ''tuesday'' = None"
    "parseDateFromSpeech clk ''wednesday'' = None"
    "parseDateFromSpeech clk ''thursday'' = None"
    "parseDateFromSpeech clk ''saturday'' = None"
    "parseDateFromSpeech clk ''sunday'' = None"
    "parseDateFromSpeech clk ''monday'' \<noteq> None"
    by (simp_all add: parseDateFromSpeech_def str_defs Let_def)
  have n: "\<not> (needsReminder ?s \<and> creatorReminderTime ?s = None)"
    and i: "currentQuestionIndex ?s = 4"
    and d: "dueDate (taskData ?s) = None"
    by (simp_all add: initialCreator_def initialTaskData_def)
  have k: "\<not> (str_includes (trim (toLowerCase ''next Friday'')) ''skip'' \<or>
            str_includes (trim (toLowerCase ''next Friday'')) ''no'' \<or>
            trim (toLowerCase ''next Friday'') = '''')"
    by (simp add: normalized_answers)
  have "processAnswer pr clk ?s ''next Friday'' ?s =
      does (CallsSpeak (Say ''Due date set.next friday.'') ThenNextQuestion) ?s"
    using processAnswer_stores(3)[OF n k i, of pr clk ?s] p
    by (simp add: normalized_answers)
  then show ?thesis
    using p others d by (simp add: creator_fields_does)
qed

section \<open>The reminder scheduler\<close>

lemma map_of_update_same: "map_of (AList.update k v al) k = Some v"
  by (simp add: update_conv')

lemma value_of_key_in_values: "map_of al k = Some v \<Longrightarrow> v \<in> snd ` set al"
  by (force dest: map_of_SomeD)

lemma value_in_update: "v \<in> snd ` set (AList.update k v al)"
  by (rule value_of_key_in_values[OF map_of_update_same])

lemma map_of_delete_same: "map_of (AList.delete k al) k = None"
  by (simp add: delete_conv')

lemma triggerReminder_effect:
  "reminders (triggerReminder r m) =
     AList.update (reminder_id r) (r\<lparr>isActive := False\<rparr>) (reminders m)"
  "timeouts (triggerReminder r m) = AList.delete (reminder_id r) (timeouts m)"
  "storedReminders (triggerReminder r m) =
     Some (map snd (AList.update (reminder_id r) (r\<lparr>isActive := False\<rparr>) (reminders m)))"
  "pendingTimeouts (triggerReminder r m) = pendingTimeouts m"
  "onReminderTriggered (triggerReminder r m) = onReminderTriggered m"
  "storedTasks (triggerReminder r m) = storedTasks m"
  "nextTimeoutHandle (triggerReminder r m) = nextTimeoutHandle m"
  by (simp_all add: triggerReminder_def saveReminders_def getTaskById_def getStoredTasks_def
      Let_def split: option.splits)

lemma triggerReminder_callback:
  "callbackCalls (triggerReminder r m) =
     (if onReminderTriggered m
      then (case getTaskById (taskId r) m of
              Some task \<Rightarrow> callbackCalls m @ [(r\<lparr>isActive := False\<rparr>, task)]
            | None \<Rightarrow> callbackCalls m)
      else callbackCalls m)"
  by (simp add: triggerReminder_def saveReminders_def getTaskById_def getStoredTasks_def
      Let_def split: option.splits)

lemma scheduleReminder_due:
  "reminderTime r \<le> now \<Longrightarrow> scheduleReminder now r m = triggerReminder r m"
  by (simp add: scheduleReminder_def)

subsection \<open>Loading at startup\<close>

lemma loadOne_other:
  assumes "reminder_id x \<noteq> k"
  shows "map_of (reminders (loadOne now m x)) k = map_of (reminders m) k"
    and "map_of (timeouts (loadOne now m x)) k = map_of (timeouts m) k"
    and "k \<notin> reminder_id ` snd ` set (pendingTimeouts m) \<Longrightarrow>
         k \<notin> reminder_id ` snd ` set (pendingTimeouts (loadOne now m x))"
    and "storedReminders (loadOne now m x) = storedReminders m \<or>
         storedReminders (loadOne now m x) = Some (map snd (reminders (loadOne now m x)))"
  using assms
  by (auto simp: loadOne_def scheduleReminder_def triggerReminder_effect Let_def
      update_conv' delete_conv')

lemma loadOne_keeps_settled:
  assumes "settled k v m" "reminder_id x \<noteq> k"
  shows "settled k v (loadOne now m x)"
proof -
  have r: "map_of (reminders (loadOne now m x)) k = Some v"
    using assms loadOne_other(1)[OF assms(2)] by (simp add: settled_def)
  have "\<exists>saved. storedReminders (loadOne now m x) = Some saved \<and> v \<in> set saved"
    using loadOne_other(4)[OF assms(2), of now m]
  proof
    assume "storedReminders (loadOne now m x) = storedReminders m"
    then show ?thesis using assms(1) by (simp add: settled_def)
  next
    assume "storedReminders (loadOne now m x) = Some (map snd (reminders (loadOne now m x)))"
    then show ?thesis using value_of_key_in_values[OF r] by simp
  qed
  then show ?thesis
    using r assms loadOne_other(2,3)[OF assms(2)] by (simp add: settled_def)
qed

lemma fold_keeps_settled:
  "settled k v m \<Longrightarrow> \<forall>x \<in> set xs. reminder_id x \<noteq> k \<Longrightarrow>
   settled k v (foldl (loadOne now) m xs)"
  by (induction xs arbitrary: m) (simp_all add: loadOne_keeps_settled)

lemma loadOne_settles:
  assumes "isActive r" "reminderTime r \<le> now"
    and "reminder_id r \<notin> reminder_id ` snd ` set (pendingTimeouts m)"
  shows "settled (reminder_id r) (r\<lparr>isActive := False\<rparr>) (loadOne now m r)"
  using assms
  by (simp add: settled_def loadOne_def scheduleReminder_due triggerReminder_effect Let_def
      update_conv' delete_conv' value_in_update)

lemma fold_settles:
  assumes "distinct (map reminder_id xs)" "r \<in> set xs" "isActive r" "reminderTime r \<le> now"
    and "reminder_id r \<notin> reminder_id ` snd ` set (pendingTimeouts m)"
  shows "settled (reminder_id r) (r\<lparr>isActive := False\<rparr>) (foldl (loadOne now) m xs)"
  using assms
proof (induction xs arbitrary: m)
  case Nil
  then show ?case by simp
next
  case (Cons x xs)
  show ?case
  proof (cases "x = r")
    case True
    have others: "\<forall>y \<in> set xs. reminder_id y \<noteq> reminder_id r"
      using Cons.prems(1) True by (metis distinct.simps(2) image_eqI list.simps(9) set_map)
    have "settled (reminder_id r) (r\<lparr>isActive := False\<rparr>) (loadOne now m r)"
      using Cons.prems by (intro loadOne_settles) simp_all
    from fold_keeps_settled[OF this others] True show ?thesis by simp
  next
    case False
    then have mem: "r \<in> set xs" using Cons.prems(2) by simp
    then have ne: "reminder_id x \<noteq> reminder_id r"
      using Cons.prems(1) by (metis distinct.simps(2) image_eqI list.simps(9) set_map)
    have "reminder_id r \<notin> reminder_id ` snd ` set (pendingTimeouts (loadOne now m x))"
      using loadOne_other(3)[OF ne] Cons.prems(5) by blast
    with Cons.IH[of "loadOne now m x"] Cons.prems mem show ?thesis by simp
  qed
qed

lemma constructor_settles:
  assumes "distinct (map reminder_id arr)" "r \<in> set arr" "isActive r" "reminderTime r \<le> now"
  shows "settled (reminder_id r) (r\<lparr>isActive := False\<rparr>)
           (ReminderManager_new now (Some arr) tasks)"
  using fold_settles[OF assms, of "\<lparr> reminders = [], timeouts = [], onReminderTriggered = False,
         storedReminders = Some arr, storedTasks = tasks,
         pendingTimeouts = [], nextTimeoutHandle = 1, callbackCalls = [] \<rparr>"]
  by (simp add: ReminderManager_new_def loadReminders_def)

text \<open>
  The constructor loads the reminders before \<open>onReminder\<close> can have registered a callback:
  whatever it triggers, it calls no callback.
\<close>

lemma loadOne_unregistered:
  "\<not> onReminderTriggered m \<Longrightarrow>
   \<not> onReminderTriggered (loadOne now m x) \<and> callbackCalls (loadOne now m x) = callbackCalls m"
  by (simp add: loadOne_def scheduleReminder_def triggerReminder_effect triggerReminder_callback
      Let_def)

lemma fold_unregistered:
  "\<not> onReminderTriggered m \<Longrightarrow> callbackCalls (foldl (loadOne now) m xs) = callbackCalls m"
  by (induction xs arbitrary: m) (simp_all add: loadOne_unregistered)

lemma constructor_calls_no_callback:
  "callbackCalls (ReminderManager_new now stored tasks) = []"
  by (simp add: ReminderManager_new_def loadReminders_def fold_unregistered split: option.splits)

lemma exampleManager_facts:
  "onReminderTriggered (onReminder (ReminderManager_new 1000000 None tasks))"
  "callbackCalls (onReminder (ReminderManager_new 1000000 None tasks)) = []"
  "getTaskById ''t1'' (onReminder (ReminderManager_new 1000000 None [exampleTask])) = Some exampleTask"
  "getTaskById ''t1'' (onReminder (ReminderManager_new 1000000 None [])) = None"
  by (simp_all add: onReminder_def ReminderManager_new_def loadReminders_def getTaskById_def
      getStoredTasks_def exampleTask_def)

subsection \<open>A reminder that is already due\<close>

text \<open>
  C5, as stated, fails: with a callback registered and no task \<open>t1\<close> in the stored task
  list, adding a reminder for \<open>t1\<close> that was due five minutes ago triggers it at once but
  the callback is not called, where the claim has it called exactly once.
\<close>

theorem past_due_callback_counterexample:
  "onReminderTriggered (onReminder (ReminderManager_new 1000000 None [])) \<and>
   (700000::int) \<le> 1000000 \<and>
   callbackCalls (addReminder 1000000 ''r1'' ''t1'' 700000 ''both''
      (onReminder (ReminderManager_new 1000000 None []))) = []"
  by (simp add: addReminder_def scheduleReminder_def triggerReminder_def saveReminders_def
      getTaskById_def getStoredTasks_def onReminder_def ReminderManager_new_def
      loadReminders_def Let_def)

text \<open>
  C5, amended. A reminder whose due time is at or before the current time when it is
  scheduled is triggered inside \<open>scheduleReminder\<close>: it is stored as inactive, the reminder
  set is persisted with it, no timer is created and no timer is registered for it. When
  a callback is registered, the callback is called exactly once, with the inactive
  reminder and its task, if the task is in the stored task list, and not at all if it is
  not. An active reminder of the persisted array (with distinct identifiers) that is due
  when the manager is constructed is, after construction, stored as inactive and persisted
  as such, with no timer registered or pending for it.
\<close>

theorem past_due_reminder_triggers_at_once:
  assumes "reminderTime r \<le> now"
  shows "map_of (reminders (scheduleReminder now r m)) (reminder_id r) =
           Some (r\<lparr>isActive := False\<rparr>) \<and>
         storedReminders (scheduleReminder now r m) =
           Some (map snd (reminders (scheduleReminder now r m))) \<and>
         r\<lparr>isActive := False\<rparr> \<in> set (map snd (reminders (scheduleReminder now r m))) \<and>
         map_of (timeouts (scheduleReminder now r m)) (reminder_id r) = None \<and>
         pendingTimeouts (scheduleReminder now r m) = pendingTimeouts m \<and>
         (onReminderTriggered m \<longrightarrow>
            callbackCalls (scheduleReminder now r m) =
              callbackCalls m @
                (case getTaskById (taskId r) m of
                   Some task \<Rightarrow> [(r\<lparr>isActive := False\<rparr>, task)]
                 | None \<Rightarrow> [])) \<and>
         (isActive r \<and> r \<in> set arr \<and> distinct (map reminder_id arr) \<longrightarrow>
            settled (reminder_id r) (r\<lparr>isActive := False\<rparr>)
              (ReminderManager_new now (Some arr) tasks))"
proof -
  have "isActive r \<and> r \<in> set arr \<and> distinct (map reminder_id arr) \<longrightarrow>
            settled (reminder_id r) (r\<lparr>isActive := False\<rparr>)
              (ReminderManager_new now (Some arr) tasks)"
    using constructor_settles[of arr r now tasks] assms by blast
  then show ?thesis
    using assms
    by (simp add: scheduleReminder_due triggerReminder_effect triggerReminder_callback
        map_of_update_same value_in_update map_of_delete_same split: option.splits)
qed

text \<open>
  The example reminder, due five minutes before time 1000000: scheduled with a callback
  registered and its task stored, the callback is called once; found in the persisted
  array at startup, it ends up inactive and persisted with no timer.
\<close>

theorem past_due_reminder_triggers_at_once_witness:
  "reminderTime exampleReminder \<le> 1000000 \<and>
   onReminderTriggered (onReminder (ReminderManager_new 1000000 None [exampleTask])) \<and>
   callbackCalls (scheduleReminder 1000000 exampleReminder
      (onReminder (ReminderManager_new 1000000 None [exampleTask]))) =
     [(exampleReminder\<lparr>isActive := False\<rparr>, exampleTask)] \<and>
   map_of (timeouts (scheduleReminder 1000000 exampleReminder
      (onReminder (ReminderManager_new 1000000 None [exampleTask])))) ''r1'' = None \<and>
   isActive exampleReminder \<and> exampleReminder \<in> set [exampleReminder] \<and>
   distinct (map reminder_id [exampleReminder]) \<and>
   settled ''r1'' (exampleReminder\<lparr>isActive := False\<rparr>)
     (ReminderManager_new 1000000 (Some [exampleReminder]) [exampleTask])"
proof -
  have d: "reminderTime exampleReminder \<le> 1000000"
    and a: "isActive exampleReminder"
    and i: "reminder_id exampleReminder = ''r1''"
    and t: "taskId exampleReminder = ''t1''"
    by (simp_all add: exampleReminder_def)
  from past_due_reminder_triggers_at_once[OF d,
      of "onReminder (ReminderManager_new 1000000 None [exampleTask])"
         "[exampleReminder]" "[exampleTask]"]
    d a i t exampleManager_facts(1,2)[of "[exampleTask]"] exampleManager_facts(3)
  show ?thesis by simp
qed

subsection \<open>A reminder whose task is gone\<close>

text \<open>
  C10. When a reminder triggers and no task with its \<open>taskId\<close> is in the stored task list,
  the reminder is stored as inactive and the reminder set is persisted with it, but the
  callback is not called (whether or not one is registered).
\<close>

theorem missing_task_drops_delivery:
  assumes "getTaskById (taskId r) m = None"
  shows "map_of (reminders (triggerReminder r m)) (reminder_id r) = Some (r\<lparr>isActive := False\<rparr>) \<and>
         storedReminders (triggerReminder r m) = Some (map snd (reminders (triggerReminder r m))) \<and>
         r\<lparr>isActive := False\<rparr> \<in> set (map snd (reminders (triggerReminder r m))) \<and>
         callbackCalls (triggerReminder r m) = callbackCalls m"
  using assms
  by (simp add: triggerReminder_effect triggerReminder_callback map_of_update_same value_in_update)

theorem missing_task_drops_delivery_witness:
  "onReminderTriggered (onReminder (ReminderManager_new 1000000 None [])) \<and>
   getTaskById (taskId exampleReminder) (onReminder (ReminderManager_new 1000000 None [])) = None \<and>
   storedReminders (triggerReminder exampleReminder
      (onReminder (ReminderManager_new 1000000 None []))) =
     Some [exampleReminder\<lparr>isActive := False\<rparr>] \<and>
   callbackCalls (triggerReminder exampleReminder
      (onReminder (ReminderManager_new 1000000 None []))) = []"
proof -
  have t: "taskId exampleReminder = ''t1''"
    by (simp add: exampleReminder_def)
  have g: "getTaskById (taskId exampleReminder)
      (onReminder (ReminderManager_new 1000000 None [])) = None"
    using exampleManager_facts(4) t by simp
  have r: "reminders (onReminder (ReminderManager_new 1000000 None [])) = []"
    by (simp add: onReminder_def ReminderManager_new_def loadReminders_def)
  from missing_task_drops_delivery[OF g] g exampleManager_facts(1,2)[of "[]"] r
  show ?thesis by (simp add: triggerReminder_effect)
qed


end
